theory Spec2Isabelle
  imports Complex_Main "HOL-Library.List_Lexorder"
begin

section \<open>The persistent store\<close>

text \<open>
  The tables of \<^verbatim>\<open>server/db/database.js\<close>, each a list of rows in insertion order.
  A \<^verbatim>\<open>SELECT ... WHERE\<close> is a \<open>filter\<close>, an \<^verbatim>\<open>UPDATE ... WHERE\<close> a \<open>map\<close> that
  rewrites the matching rows, a \<^verbatim>\<open>DELETE ... WHERE\<close> a \<open>filter\<close> that keeps the others,
  and \<^verbatim>\<open>rows[0]\<close> the head of the selected list.

  Money columns are \<^verbatim>\<open>DECIMAL(10,2)\<close> and \<^verbatim>\<open>DECIMAL(4,2)\<close>: fixed point with two
  fractional digits. A stored money value is the integer number of hundredths, so
  30.00 is \<open>3000\<close>. A number the JavaScript code computes with (an amount a request
  carries, a minimum, a balance read back with \<^verbatim>\<open>parseFloat\<close>) is the rational it
  denotes, in whole currency units, so 30.00 is \<open>30\<close>; arithmetic on such numbers is
  exact. A number assigned to a \<^verbatim>\<open>DECIMAL(p,2)\<close> column is rounded to two fractional
  digits, half away from zero, as MySQL rounds on assignment to an exact-value column;
  the column's upper bound is not modelled.

  Timestamps are seconds; \<^verbatim>\<open>NOW()\<close> is the time \<open>now\<close> a request is served at.
  \<^verbatim>\<open>Date.now()\<close> is the JavaScript clock \<open>now_ms\<close>, in milliseconds.

  Every statement of one request runs against the store in sequence, and a request that
  rolls back returns the store it started from. The statements themselves succeed: the
  \<^verbatim>\<open>catch\<close> blocks that answer 500 when the database is unreachable have no branch
  here, except where a \<^verbatim>\<open>UNIQUE\<close> key rejects an insert. Strings are compared
  character by character. Columns that no modelled statement reads (the optional
  profile fields, network addresses, creation times of users) are left out of the rows.
\<close>

type_synonym money = int
type_synonym timestamp = nat

text \<open>Rounding to the nearest integer, a half going away from zero.\<close>

definition round_half_away :: "rat \<Rightarrow> int" where
  "round_half_away x = (if 0 \<le> x then \<lfloor>x + 1 / 2\<rfloor> else - \<lfloor>1 / 2 - x\<rfloor>)"

text \<open>The value a \<^verbatim>\<open>DECIMAL(p,2)\<close> column keeps of a number, in hundredths.\<close>

definition to_decimal2 :: "rat \<Rightarrow> money" where
  "to_decimal2 x = round_half_away (x * 100)"

text \<open>\<^verbatim>\<open>parseFloat\<close> of a \<^verbatim>\<open>DECIMAL(p,2)\<close> value read from the store.\<close>

definition of_decimal2 :: "money \<Rightarrow> rat" where
  "of_decimal2 m = of_int m / 100"

record user_row =
  u_id :: nat
  u_email :: string
  u_full_name :: string
  u_phone :: string
  u_instagram_id :: string
  u_batch_letter :: "nat list"
  u_earnings :: money
  u_is_verified :: bool
  u_is_admin :: bool
  u_permanent_login_code :: "string option"

datatype engagement = Like | LikeComment | LikeCommentShare | Vip

record post_row =
  p_id :: nat
  p_title :: string
  p_reward_amount :: money
  p_is_active :: bool
  p_click_count :: "int option"
  p_click_limit :: "int option"
  p_auto_delete_enabled :: bool
  p_engagement_type :: engagement

record click_row =
  c_id :: nat
  c_user_id :: nat
  c_post_id :: nat
  c_reward_amount :: money
  c_clicked_at :: timestamp

datatype payout_method = Paytm | Amazon | Phonepe

datatype wstatus = Pending | Approved | Declined

record withdrawal_row =
  w_id :: nat
  w_user_id :: nat
  w_amount :: money
  w_method :: payout_method
  w_account_details :: string
  w_status :: wstatus
  w_admin_notes :: "string option"
  w_created_at :: timestamp
  w_processed_at :: "timestamp option"

record session_row =
  s_id :: string
  s_user_id :: nat
  s_expires_at :: timestamp

record batch_row =
  b_letter :: "nat list"
  b_user_count :: int
  b_is_active :: bool

datatype code_type = RegisterCode | LoginCode

record code_row =
  v_email :: string
  v_code :: string
  v_type :: code_type
  v_expires_at :: timestamp
  v_used :: bool

record db =
  users :: "user_row list"
  posts :: "post_row list"
  user_clicks :: "click_row list"
  withdrawals :: "withdrawal_row list"
  sessions :: "session_row list"
  batches :: "batch_row list"
  verification_codes :: "code_row list"
  next_user_id :: nat
  next_click_id :: nat
  next_withdrawal_id :: nat

section \<open>Responses\<close>

text \<open>
  Every \<^verbatim>\<open>res.status(n).json({...})\<close> that ends a request early is one constructor,
  named after its message; \<open>http_status\<close> gives the status code the source sends.
\<close>

datatype error =
    NoSessionFound
  | InvalidOrExpiredSession
  | AuthenticationRequired
  | EmailVerificationRequired
  | AdminAccessRequired
  | PostIdRequired
  | PostNotFound
  | PostNoLongerActive
  | AlreadySubmitted
  | AllFieldsRequired
  | InvalidAmount
  | MinimumWithdrawal payout_method rat
  | UserNotFound
  | InsufficientBalance
  | StatusMustBeApprovedOrDeclined
  | WithdrawalNotFoundOrProcessed
  | EmailAlreadyRegistered
  | InstagramAlreadyTaken
  | RegistrationConflict
  | AccountAlreadyExists
  | RegisterFieldsRequired
  | InvalidEmailAddress
  | InvalidUsername string
  | InvalidWebsite


section \<open>Session checks\<close>

record request =
  cookie_sessionId :: "string option"
  authorization :: "string option"

text \<open>\<^verbatim>\<open>req.user\<close>, as both session checks fill it from the joined row.\<close>

record req_user =
  ru_id :: nat
  ru_email :: string
  ru_batchLetter :: "nat list"
  ru_earnings :: money
  ru_isVerified :: bool
  ru_isAdmin :: bool

definition seven_days :: nat where
  "seven_days = 7 * 24 * 60 * 60"

text \<open>
  \<^verbatim>\<open>FROM sessions s JOIN users u ON s.user_id = u.id WHERE s.id = ? AND s.expires_at > NOW()\<close>
\<close>

definition select_session :: "db \<Rightarrow> timestamp \<Rightarrow> string \<Rightarrow> (session_row \<times> user_row) list" where
  "select_session d now sid =
     [(s, u). s \<leftarrow> sessions d, u \<leftarrow> users d,
              s_user_id s = u_id u, s_id s = sid, now < s_expires_at s]"

definition user_of_row :: "user_row \<Rightarrow> req_user" where
  "user_of_row u =
     \<lparr>ru_id = u_id u, ru_email = u_email u, ru_batchLetter = u_batch_letter u,
      ru_earnings = u_earnings u, ru_isVerified = u_is_verified u,
      ru_isAdmin = u_is_admin u\<rparr>"

text \<open>
  \<^verbatim>\<open>UPDATE sessions SET expires_at = DATE_ADD(NOW(), INTERVAL 7 DAY) WHERE id = ?\<close>
\<close>

definition extend_session :: "db \<Rightarrow> timestamp \<Rightarrow> string \<Rightarrow> db" where
  "extend_session d now sid =
     d\<lparr>sessions :=
         map (\<lambda>s. if s_id s = sid then s\<lparr>s_expires_at := now + seven_days\<rparr> else s)
           (sessions d)\<rparr>"

text \<open>
  \<^verbatim>\<open>sessionMiddleware\<close> of \<^verbatim>\<open>server/middleware/auth.js\<close>: the token is read from
  the cookie; an absent or empty one is falsy.
\<close>

definition sessionMiddleware :: "db \<Rightarrow> timestamp \<Rightarrow> request \<Rightarrow> error + (db \<times> req_user)" where
  "sessionMiddleware d now req =
     (case cookie_sessionId req of
        None \<Rightarrow> Inl NoSessionFound
      | Some sid \<Rightarrow>
          if sid = [] then Inl NoSessionFound
          else (case select_session d now sid of
                  [] \<Rightarrow> Inl InvalidOrExpiredSession
                | (s, u) # _ \<Rightarrow> Inr (extend_session d now sid, user_of_row u)))"

text \<open>
  \<^verbatim>\<open>h.replace('Bearer ', '')\<close>: the first occurrence of the pattern is removed.
\<close>

fun strip_bearer :: "string \<Rightarrow> string" where
  "strip_bearer [] = []"
| "strip_bearer (c # cs) =
     (if take 7 (c # cs) = ''Bearer '' then drop 7 (c # cs) else c # strip_bearer cs)"

text \<open>
  \<^verbatim>\<open>req.cookies.sessionId || (req.headers.authorization && req.headers.authorization.replace('Bearer ', ''))\<close>;
  \<open>None\<close> is a falsy result.
\<close>

definition token_of :: "request \<Rightarrow> string option" where
  "token_of req =
     (case cookie_sessionId req of
        Some sid \<Rightarrow> if sid \<noteq> [] then Some sid else
          (case authorization req of
             None \<Rightarrow> None
           | Some h \<Rightarrow> if h = [] then None
                       else if strip_bearer h = [] then None else Some (strip_bearer h))
      | None \<Rightarrow>
          (case authorization req of
             None \<Rightarrow> None
           | Some h \<Rightarrow> if h = [] then None
                       else if strip_bearer h = [] then None else Some (strip_bearer h)))"

text \<open>
  \<^verbatim>\<open>sessionAuth\<close> of \<^verbatim>\<open>routes/user.js\<close>: the same lookup, with no write to the
  session row.
\<close>

definition sessionAuth :: "db \<Rightarrow> timestamp \<Rightarrow> request \<Rightarrow> error + req_user" where
  "sessionAuth d now req =
     (case token_of req of
        None \<Rightarrow> Inl AuthenticationRequired
      | Some sid \<Rightarrow>
          (case select_session d now sid of
             [] \<Rightarrow> Inl InvalidOrExpiredSession
           | (s, u) # _ \<Rightarrow> Inr (user_of_row u)))"

section \<open>Settlement: \<^verbatim>\<open>POST /submit-click\<close>\<close>

text \<open>
  The request body. The handler destructures \<^verbatim>\<open>postId\<close>, \<^verbatim>\<open>socialLink\<close> and
  \<^verbatim>\<open>autoApprove\<close>; \<open>other_fields\<close> holds whatever else the client sent. The post
  identifier is a JSON number, absent when \<open>None\<close>; 0 is falsy like an absent one.
\<close>

record click_body =
  postId :: "nat option"
  socialLink :: "string option"
  autoApprove :: "bool option"
  other_fields :: "(string \<times> string) list"

record click_result =
  clickId :: nat
  earnings :: money
  autoDeleted :: bool
  engagementType :: engagement

definition select_post :: "db \<Rightarrow> nat \<Rightarrow> post_row list" where
  "select_post d pid = filter (\<lambda>p. p_id p = pid) (posts d)"

definition existingClicks :: "db \<Rightarrow> nat \<Rightarrow> nat \<Rightarrow> click_row list" where
  "existingClicks d uid pid =
     filter (\<lambda>c. c_user_id c = uid \<and> c_post_id c = pid) (user_clicks d)"

text \<open>
  \<^verbatim>\<open>INSERT INTO user_clicks (user_id, post_id, reward_amount, clicked_at) VALUES (?, ?, ?, NOW())\<close>
\<close>

definition insert_click :: "db \<Rightarrow> timestamp \<Rightarrow> nat \<Rightarrow> nat \<Rightarrow> money \<Rightarrow> db" where
  "insert_click d now uid pid reward =
     d\<lparr>user_clicks := user_clicks d @
          [\<lparr>c_id = next_click_id d, c_user_id = uid, c_post_id = pid,
            c_reward_amount = reward, c_clicked_at = now\<rparr>],
       next_click_id := next_click_id d + 1\<rparr>"

text \<open>\<^verbatim>\<open>UPDATE users SET earnings = earnings + ? WHERE id = ?\<close>\<close>

definition add_earnings :: "db \<Rightarrow> nat \<Rightarrow> money \<Rightarrow> db" where
  "add_earnings d uid amt =
     d\<lparr>users := map (\<lambda>u. if u_id u = uid then u\<lparr>u_earnings := u_earnings u + amt\<rparr> else u)
                  (users d)\<rparr>"

text \<open>\<^verbatim>\<open>UPDATE posts SET click_count = ? WHERE id = ?\<close>\<close>

definition set_click_count :: "db \<Rightarrow> nat \<Rightarrow> int \<Rightarrow> db" where
  "set_click_count d pid n =
     d\<lparr>posts := map (\<lambda>p. if p_id p = pid then p\<lparr>p_click_count := Some n\<rparr> else p) (posts d)\<rparr>"

text \<open>
  \<^verbatim>\<open>DELETE FROM user_clicks WHERE post_id = ?\<close>, then \<^verbatim>\<open>DELETE FROM posts WHERE id = ?\<close>
\<close>

definition delete_post :: "db \<Rightarrow> nat \<Rightarrow> db" where
  "delete_post d pid =
     d\<lparr>user_clicks := filter (\<lambda>c. c_post_id c \<noteq> pid) (user_clicks d),
       posts := filter (\<lambda>p. p_id p \<noteq> pid) (posts d)\<rparr>"

text \<open>\<^verbatim>\<open>(post.click_count || 0) + 1\<close>\<close>

definition newClickCount :: "post_row \<Rightarrow> int" where
  "newClickCount post = (case p_click_count post of None \<Rightarrow> 0 | Some n \<Rightarrow> n) + 1"

text \<open>
  \<^verbatim>\<open>post.auto_delete_enabled && post.click_limit\<close> and then
  \<^verbatim>\<open>newClickCount >= post.click_limit\<close>: a \<^verbatim>\<open>NULL\<close> or zero limit is falsy.
\<close>

definition limit_reached :: "post_row \<Rightarrow> bool" where
  "limit_reached post =
     (p_auto_delete_enabled post \<and>
      (case p_click_limit post of
         None \<Rightarrow> False
       | Some l \<Rightarrow> l \<noteq> 0 \<and> l \<le> newClickCount post))"

text \<open>
  The handler, after the session checks have set \<^verbatim>\<open>req.user\<close>. It reads
  \<^verbatim>\<open>req.user.id\<close> and \<^verbatim>\<open>postId\<close> only. The response's message text is left out.
\<close>

definition submit_click :: "db \<Rightarrow> timestamp \<Rightarrow> req_user \<Rightarrow> click_body \<Rightarrow> db \<times> (error + click_result)" where
  "submit_click d now user body =
     (case postId body of
        None \<Rightarrow> (d, Inl PostIdRequired)
      | Some pid \<Rightarrow>
          if pid = 0 then (d, Inl PostIdRequired)
          else (case select_post d pid of
              [] \<Rightarrow> (d, Inl PostNotFound)
            | post # _ \<Rightarrow>
                if \<not> p_is_active post then (d, Inl PostNoLongerActive)
                else if existingClicks d (ru_id user) pid \<noteq> [] then (d, Inl AlreadySubmitted)
                else
                  let d1 = insert_click d now (ru_id user) pid (p_reward_amount post);
                      d2 = add_earnings d1 (ru_id user) (p_reward_amount post);
                      d3 = set_click_count d2 pid (newClickCount post);
                      d4 = (if limit_reached post then delete_post d3 pid else d3)
                  in (d4, Inr \<lparr>clickId = next_click_id d,
                               earnings = p_reward_amount post,
                               autoDeleted = limit_reached post,
                               engagementType = p_engagement_type post\<rparr>)))"

text \<open>
  A run of submit-click requests for one body, one caller after the other, each served
  at its own time; the results are kept in order.
\<close>

fun submit_all :: "db \<Rightarrow> (timestamp \<times> req_user) list \<Rightarrow> click_body \<Rightarrow> db \<times> (error + click_result) list" where
  "submit_all d [] body = (d, [])"
| "submit_all d ((now, user) # rest) body =
     (case submit_click d now user body of
        (d1, r) \<Rightarrow> (case submit_all d1 rest body of (d2, rs) \<Rightarrow> (d2, r # rs)))"

text \<open>
  \<^verbatim>\<open>UNIQUE KEY unique_user_post (user_id, post_id)\<close> of \<^verbatim>\<open>user_clicks\<close>, as a property
  of a store.
\<close>

definition unique_user_post :: "db \<Rightarrow> bool" where
  "unique_user_post d = distinct (map (\<lambda>c. (c_user_id c, c_post_id c)) (user_clicks d))"

section \<open>Withdrawals: \<^verbatim>\<open>POST /withdraw\<close> and \<^verbatim>\<open>PUT /withdrawals/:id/process\<close>\<close>

text \<open>
  The body of a withdrawal request. The method is one of the values of the
  \<^verbatim>\<open>ENUM('paytm', 'amazon', 'phonepe')\<close> column, or absent. The amount is what
  \<^verbatim>\<open>!amount\<close> and \<^verbatim>\<open>parseFloat(amount)\<close> see: a falsy value (absent, empty, the
  number 0), a truthy value that parses to \<^verbatim>\<open>NaN\<close>, or a truthy value that parses to
  a number. The number is any rational: the handler puts no bound on its decimals.
\<close>

datatype amount_input = AmountMissing | AmountNotNumeric | AmountValue rat

record withdraw_body =
  wd_method :: "payout_method option"
  wd_amount :: amount_input
  wd_accountDetails :: "string option"

record withdraw_result =
  wr_amount :: rat
  wr_method :: payout_method

text \<open>\<^verbatim>\<open>const minAmounts = { amazon: 100, phonepe: 500 }\<close>; any other key is undefined.\<close>

fun minAmounts :: "payout_method \<Rightarrow> rat option" where
  "minAmounts Amazon = Some 100"
| "minAmounts Phonepe = Some 500"
| "minAmounts Paytm = None"

text \<open>\<^verbatim>\<open>withdrawalAmount < minAmounts[method]\<close>; the comparison with undefined is false.\<close>

definition below_minimum :: "payout_method \<Rightarrow> rat \<Rightarrow> bool" where
  "below_minimum m a = (case minAmounts m of None \<Rightarrow> False | Some lo \<Rightarrow> a < lo)"

text \<open>
  \<^verbatim>\<open>INSERT INTO withdrawals (user_id, amount, method, account_details, status, created_at) VALUES (?, ?, ?, ?, 'pending', NOW())\<close>:
  the \<^verbatim>\<open>amount\<close> column keeps the request's number rounded to two decimals.
\<close>

definition insert_withdrawal :: "db \<Rightarrow> timestamp \<Rightarrow> nat \<Rightarrow> rat \<Rightarrow> payout_method \<Rightarrow> string \<Rightarrow> db" where
  "insert_withdrawal d now uid a m acct =
     d\<lparr>withdrawals := withdrawals d @
          [\<lparr>w_id = next_withdrawal_id d, w_user_id = uid, w_amount = to_decimal2 a,
            w_method = m,
            w_account_details = acct, w_status = Pending, w_admin_notes = None,
            w_created_at = now, w_processed_at = None\<rparr>],
       next_withdrawal_id := next_withdrawal_id d + 1\<rparr>"

text \<open>
  \<^verbatim>\<open>UPDATE users SET earnings = earnings - ? WHERE id = ?\<close>: the difference of the
  stored balance and the request's number is computed first and rounded as it is
  assigned to the \<^verbatim>\<open>earnings\<close> column.
\<close>

definition sub_earnings :: "db \<Rightarrow> nat \<Rightarrow> rat \<Rightarrow> db" where
  "sub_earnings d uid amt =
     d\<lparr>users :=
         map (\<lambda>u. if u_id u = uid
                   then u\<lparr>u_earnings := to_decimal2 (of_decimal2 (u_earnings u) - amt)\<rparr>
                   else u)
           (users d)\<rparr>"

definition select_user :: "db \<Rightarrow> nat \<Rightarrow> user_row list" where
  "select_user d uid = filter (\<lambda>u. u_id u = uid) (users d)"

definition withdraw :: "db \<Rightarrow> timestamp \<Rightarrow> req_user \<Rightarrow> withdraw_body \<Rightarrow> db \<times> (error + withdraw_result)" where
  "withdraw d now user body =
     (case wd_method body of
        None \<Rightarrow> (d, Inl AllFieldsRequired)
      | Some m \<Rightarrow>
         (case wd_accountDetails body of
            None \<Rightarrow> (d, Inl AllFieldsRequired)
          | Some acct \<Rightarrow>
              if acct = [] then (d, Inl AllFieldsRequired)
              else (case wd_amount body of
                  AmountMissing \<Rightarrow> (d, Inl AllFieldsRequired)
                | AmountNotNumeric \<Rightarrow> (d, Inl InvalidAmount)
                | AmountValue a \<Rightarrow>
                    if a \<le> 0 then (d, Inl InvalidAmount)
                    else if below_minimum m a
                      then (d, Inl (MinimumWithdrawal m (case minAmounts m of None \<Rightarrow> 0 | Some lo \<Rightarrow> lo)))
                    else (case select_user d (ru_id user) of
                        [] \<Rightarrow> (d, Inl UserNotFound)
                      | u # _ \<Rightarrow>
                          if of_decimal2 (u_earnings u) < a then (d, Inl InsufficientBalance)
                          else (sub_earnings (insert_withdrawal d now (ru_id user) a m acct)
                                  (ru_id user) a,
                                Inr \<lparr>wr_amount = a, wr_method = m\<rparr>)))))"

text \<open>
  The admin's decision. \<^verbatim>\<open>['approved', 'declined'].includes(status)\<close> and
  \<^verbatim>\<open>notes || null\<close>.
\<close>

record process_body =
  pb_status :: "string option"
  pb_notes :: "string option"

record process_result =
  pr_id :: nat
  pr_status :: wstatus
  pr_amount :: money
  pr_user :: string
  pr_refunded :: bool

definition decision_of :: "string option \<Rightarrow> wstatus option" where
  "decision_of st =
     (if st = Some ''approved'' then Some Approved
      else if st = Some ''declined'' then Some Declined
      else None)"

definition notes_or_null :: "string option \<Rightarrow> string option" where
  "notes_or_null n = (case n of None \<Rightarrow> None | Some t \<Rightarrow> if t = [] then None else Some t)"

text \<open>
  \<^verbatim>\<open>FROM withdrawals w JOIN users u ON w.user_id = u.id WHERE w.id = ? AND w.status = 'pending'\<close>
\<close>

definition select_pending :: "db \<Rightarrow> nat \<Rightarrow> (withdrawal_row \<times> user_row) list" where
  "select_pending d wid =
     [(w, u). w \<leftarrow> withdrawals d, u \<leftarrow> users d,
              w_user_id w = u_id u, w_id w = wid, w_status w = Pending]"

text \<open>
  \<^verbatim>\<open>UPDATE withdrawals SET status = ?, processed_at = NOW(), admin_notes = ? WHERE id = ?\<close>
\<close>

definition resolve_row :: "db \<Rightarrow> timestamp \<Rightarrow> nat \<Rightarrow> wstatus \<Rightarrow> string option \<Rightarrow> db" where
  "resolve_row d now wid st notes =
     d\<lparr>withdrawals :=
         map (\<lambda>w. if w_id w = wid
                   then w\<lparr>w_status := st, w_processed_at := Some now, w_admin_notes := notes\<rparr>
                   else w)
           (withdrawals d)\<rparr>"

definition process_withdrawal :: "db \<Rightarrow> timestamp \<Rightarrow> nat \<Rightarrow> process_body \<Rightarrow> db \<times> (error + process_result)" where
  "process_withdrawal d now wid body =
     (case decision_of (pb_status body) of
        None \<Rightarrow> (d, Inl StatusMustBeApprovedOrDeclined)
      | Some st \<Rightarrow>
         (case select_pending d wid of
            [] \<Rightarrow> (d, Inl WithdrawalNotFoundOrProcessed)
          | (w, u) # _ \<Rightarrow>
              let d1 = (if st = Declined then add_earnings d (w_user_id w) (w_amount w) else d);
                  d2 = resolve_row d1 now wid st (notes_or_null (pb_notes body))
              in (d2, Inr \<lparr>pr_id = wid, pr_status = st, pr_amount = w_amount w,
                           pr_user = u_full_name u, pr_refunded = (st = Declined)\<rparr>)))"

text \<open>
  \<^verbatim>\<open>withdrawals.id\<close> is \<^verbatim>\<open>AUTO_INCREMENT\<close>: every row's identifier was issued before
  the next one.
\<close>

definition withdrawal_ids_issued :: "db \<Rightarrow> bool" where
  "withdrawal_ids_issued d = list_all (\<lambda>w. w_id w < next_withdrawal_id d) (withdrawals d)"

text \<open>
  The withdrawal form of the web client (\<^verbatim>\<open>WithdrawEarnings.handleSubmit\<close>): the
  checks it runs before it lets a request go out. \<open>None\<close> means the form proceeds.
\<close>

datatype toast =
    SelectMethod
  | EnterValidAmount
  | MinimumIs rat
  | MinimumForMethod payout_method rat
  | ToastInsufficientBalance
  | EnterAccountDetails
  | EnterValidEmail
  | EnterValidMobile

definition MIN_WITHDRAWAL_AMOUNT :: rat where
  "MIN_WITHDRAWAL_AMOUNT = 30"

text \<open>\<^verbatim>\<open>WITHDRAWAL_METHODS[...].minAmount\<close>\<close>

fun minAmount :: "payout_method \<Rightarrow> rat" where
  "minAmount Paytm = 30"
| "minAmount Amazon = 100"
| "minAmount Phonepe = 500"

definition is_digit :: "char \<Rightarrow> bool" where
  "is_digit c = (c \<in> set ''0123456789'')"

text \<open>\<^verbatim>\<open>/^\d{10}$/.test(accountDetails)\<close>\<close>

definition ten_digits :: "string \<Rightarrow> bool" where
  "ten_digits t = (length t = 10 \<and> list_all is_digit t)"

definition handleSubmit :: "payout_method option \<Rightarrow> amount_input \<Rightarrow> string \<Rightarrow> rat option \<Rightarrow> toast option" where
  "handleSubmit selectedMethod amount accountDetails user_earnings =
     (case selectedMethod of
        None \<Rightarrow> Some SelectMethod
      | Some m \<Rightarrow>
         (case amount of
            AmountMissing \<Rightarrow> Some EnterValidAmount
          | AmountNotNumeric \<Rightarrow> Some EnterValidAmount
          | AmountValue a \<Rightarrow>
              if a \<le> 0 then Some EnterValidAmount
              else if a < MIN_WITHDRAWAL_AMOUNT then Some (MinimumIs MIN_WITHDRAWAL_AMOUNT)
              else if a < minAmount m then Some (MinimumForMethod m (minAmount m))
              else if (case user_earnings of None \<Rightarrow> False | Some e \<Rightarrow> e < a)
                then Some ToastInsufficientBalance
              else if accountDetails = [] then Some EnterAccountDetails
              else if m = Amazon \<and> CHR ''@'' \<notin> set accountDetails then Some EnterValidEmail
              else if (m = Phonepe \<or> m = Paytm) \<and> \<not> ten_digits accountDetails
                then Some EnterValidMobile
              else None))"

section \<open>Routes\<close>

text \<open>
  \<^verbatim>\<open>app.use('/api/user', sessionMiddleware, userRoutes)\<close>, and every route of
  \<^verbatim>\<open>routes/user.js\<close> runs \<^verbatim>\<open>sessionAuth\<close> before its handler. A response sent by a
  middleware ends the request; what the middleware wrote before stays written.
\<close>

definition user_route ::
    "(db \<Rightarrow> timestamp \<Rightarrow> req_user \<Rightarrow> 'b \<Rightarrow> db \<times> (error + 'r)) \<Rightarrow>
     db \<Rightarrow> timestamp \<Rightarrow> request \<Rightarrow> 'b \<Rightarrow> db \<times> (error + 'r)" where
  "user_route handler d now req body =
     (case sessionMiddleware d now req of
        Inl e \<Rightarrow> (d, Inl e)
      | Inr (d1, u1) \<Rightarrow>
         (case sessionAuth d1 now req of
            Inl e \<Rightarrow> (d1, Inl e)
          | Inr u \<Rightarrow> handler d1 now u body))"

definition post_submit_click :: "db \<Rightarrow> timestamp \<Rightarrow> request \<Rightarrow> click_body \<Rightarrow> db \<times> (error + click_result)" where
  "post_submit_click = user_route submit_click"

definition post_withdraw :: "db \<Rightarrow> timestamp \<Rightarrow> request \<Rightarrow> withdraw_body \<Rightarrow> db \<times> (error + withdraw_result)" where
  "post_withdraw = user_route withdraw"

text \<open>
  \<^verbatim>\<open>app.use('/api/admin', sessionMiddleware, adminRoutes)\<close>, and the admin router starts
  with \<^verbatim>\<open>sessionMiddleware\<close>, \<^verbatim>\<open>verifiedUserMiddleware\<close> and \<^verbatim>\<open>adminMiddleware\<close>.
\<close>

definition admin_route ::
    "(db \<Rightarrow> timestamp \<Rightarrow> 'b \<Rightarrow> db \<times> (error + 'r)) \<Rightarrow>
     db \<Rightarrow> timestamp \<Rightarrow> request \<Rightarrow> 'b \<Rightarrow> db \<times> (error + 'r)" where
  "admin_route handler d now req body =
     (case sessionMiddleware d now req of
        Inl e \<Rightarrow> (d, Inl e)
      | Inr (d1, u1) \<Rightarrow>
         (case sessionMiddleware d1 now req of
            Inl e \<Rightarrow> (d1, Inl e)
          | Inr (d2, u) \<Rightarrow>
              if \<not> ru_isVerified u then (d2, Inl EmailVerificationRequired)
              else if \<not> ru_isAdmin u then (d2, Inl AdminAccessRequired)
              else handler d2 now body))"

definition put_withdrawal_process ::
    "nat \<Rightarrow> db \<Rightarrow> timestamp \<Rightarrow> request \<Rightarrow> process_body \<Rightarrow> db \<times> (error + process_result)" where
  "put_withdrawal_process wid = admin_route (\<lambda>d now body. process_withdrawal d now wid body)"

text \<open>
  \<^verbatim>\<open>GET /me\<close> of \<^verbatim>\<open>routes/auth.js\<close>, mounted under \<^verbatim>\<open>/api/auth\<close> with no session
  middleware before it: the handler looks the token up itself and answers with the
  user.
\<close>

definition get_me :: "db \<Rightarrow> timestamp \<Rightarrow> request \<Rightarrow> db \<times> (error + (req_user \<times> string option))" where
  "get_me d now req =
     (case token_of req of
        None \<Rightarrow> (d, Inl NoSessionFound)
      | Some sid \<Rightarrow>
         (case select_session d now sid of
            [] \<Rightarrow> (d, Inl InvalidOrExpiredSession)
          | (s, u) # _ \<Rightarrow> (d, Inr (user_of_row u, u_permanent_login_code u))))"

text \<open>The expiry a session token has in a store; \<open>None\<close> when no row has the token.\<close>

definition expiry_of :: "db \<Rightarrow> string \<Rightarrow> timestamp option" where
  "expiry_of d sid =
     (case filter (\<lambda>s. s_id s = sid) (sessions d) of [] \<Rightarrow> None | s # _ \<Rightarrow> Some (s_expires_at s))"

section \<open>Registration: batches and permanent codes\<close>

text \<open>
  A batch label is a JavaScript string, here the list of its UTF-16 code units, since
  the code computes on \<^verbatim>\<open>charCodeAt\<close>. \<open>code_units ''A''\<close> is \<open>[65]\<close>.
  \<^verbatim>\<open>ORDER BY letter\<close> is the lexicographic order of the code units.
\<close>

definition code_units :: "string \<Rightarrow> nat list" where
  "code_units t = map of_char t"

text \<open>\<^verbatim>\<open>String.fromCharCode(n)\<close> keeps the low 16 bits.\<close>

definition fromCharCode :: "nat \<Rightarrow> nat list" where
  "fromCharCode n = [n mod 65536]"

text \<open>
  \<^verbatim>\<open>INSERT IGNORE INTO batches (letter, user_count, is_active) VALUES (?, 0, TRUE)\<close>: a
  label that is already a primary key is skipped.
\<close>

definition insert_ignore_batch :: "db \<Rightarrow> nat list \<Rightarrow> db" where
  "insert_ignore_batch d l =
     (if l \<in> set (map b_letter (batches d)) then d
      else d\<lparr>batches := batches d @ [\<lparr>b_letter = l, b_user_count = 0, b_is_active = True\<rparr>]\<rparr>)"

text \<open>
  \<^verbatim>\<open>getNextBatch\<close> of \<^verbatim>\<open>routes/auth.js\<close>, the allocator \<^verbatim>\<open>POST /register\<close> calls.
  \<^verbatim>\<open>''.charCodeAt(0)\<close> is \<^verbatim>\<open>NaN\<close>, which \<^verbatim>\<open>String.fromCharCode\<close> reads as 0.
\<close>

definition getNextBatch :: "db \<Rightarrow> db \<times> nat list" where
  "getNextBatch d =
     (case sort_key b_letter (filter (\<lambda>b. b_is_active b \<and> b_user_count b < 1000) (batches d)) of
        b # _ \<Rightarrow> (d, b_letter b)
      | [] \<Rightarrow>
         (let nextLetter =
               (case rev (sort_key b_letter (batches d)) of
                  [] \<Rightarrow> code_units ''A''
                | lastBatch # _ \<Rightarrow>
                    (case b_letter lastBatch of
                       [] \<Rightarrow> fromCharCode 0
                     | c # _ \<Rightarrow> fromCharCode (c + 1)))
          in (insert_ignore_batch d nextLetter, nextLetter)))"

text \<open>
  \<^verbatim>\<open>createNextBatch\<close> of \<^verbatim>\<open>db/database.js\<close>. Its \<^verbatim>\<open>INSERT\<close> is not an
  \<^verbatim>\<open>INSERT IGNORE\<close>: on a label that exists the statement throws and the function
  returns \<^verbatim>\<open>'A'\<close> from its \<^verbatim>\<open>catch\<close>.
\<close>

definition createNextBatch :: "db \<Rightarrow> db \<times> nat list" where
  "createNextBatch d =
     (let nextLetter =
           (case rev (sort_key b_letter (batches d)) of
              [] \<Rightarrow> code_units ''A''
            | latestBatch # _ \<Rightarrow>
                (let lastLetter = b_letter latestBatch in
                 if lastLetter = code_units ''Z'' then code_units ''AA''
                 else (case rev lastLetter of
                         [] \<Rightarrow> fromCharCode 0
                       | c # _ \<Rightarrow>
                           if length lastLetter = 1 then fromCharCode (c + 1)
                           else butlast lastLetter @ fromCharCode (c + 1))))
      in if nextLetter \<in> set (map b_letter (batches d)) then (d, code_units ''A'')
         else (d\<lparr>batches := batches d @
                   [\<lparr>b_letter = nextLetter, b_user_count = 0, b_is_active = True\<rparr>]\<rparr>,
               nextLetter))"























section \<open>Example stores and requests\<close>

text \<open>
  Three users (the third is the administrator \<^verbatim>\<open>createTables\<close> seeds), three posts,
  one session each, expiring at 1604800, and the first batch.
\<close>

definition alice_row :: user_row where
  "alice_row = \<lparr>u_id = 1, u_email = ''alice@example.com'', u_full_name = ''Alice'',
     u_phone = ''9000000001'', u_instagram_id = ''alice.a'', u_batch_letter = [65],
     u_earnings = 5000, u_is_verified = True, u_is_admin = False,
     u_permanent_login_code = Some ''482915''\<rparr>"

definition bob_row :: user_row where
  "bob_row = \<lparr>u_id = 2, u_email = ''bob@example.com'', u_full_name = ''Bob'',
     u_phone = ''9000000002'', u_instagram_id = ''bob_b'', u_batch_letter = [65],
     u_earnings = 60000, u_is_verified = False, u_is_admin = False,
     u_permanent_login_code = Some ''771204''\<rparr>"

definition admin_row :: user_row where
  "admin_row = \<lparr>u_id = 3, u_email = ''admin@socialplatform.com'', u_full_name = ''Admin User'',
     u_phone = ''+1234567890'', u_instagram_id = ''admin_user'',
     u_batch_letter = [65, 68, 77, 73, 78],
     u_earnings = 0, u_is_verified = True, u_is_admin = True,
     u_permanent_login_code = Some ''123456''\<rparr>"

definition post_two_clicks :: post_row where
  "post_two_clicks = \<lparr>p_id = 1, p_title = ''Like our reel'', p_reward_amount = 15,
     p_is_active = True, p_click_count = Some 0, p_click_limit = Some 2,
     p_auto_delete_enabled = True, p_engagement_type = Like\<rparr>"

definition post_one_click :: post_row where
  "post_one_click = \<lparr>p_id = 2, p_title = ''Share the launch'', p_reward_amount = 40,
     p_is_active = True, p_click_count = Some 0, p_click_limit = Some 1,
     p_auto_delete_enabled = True, p_engagement_type = LikeCommentShare\<rparr>"

definition post_open :: post_row where
  "post_open = \<lparr>p_id = 3, p_title = ''Comment on the post'', p_reward_amount = 25,
     p_is_active = True, p_click_count = Some 7, p_click_limit = None,
     p_auto_delete_enabled = False, p_engagement_type = LikeComment\<rparr>"

definition demo_db :: db where
  "demo_db = \<lparr>users = [alice_row, bob_row, admin_row],
     posts = [post_two_clicks, post_one_click, post_open],
     user_clicks = [],
     withdrawals = [],
     sessions = [\<lparr>s_id = ''sess-alice'', s_user_id = 1, s_expires_at = 1604800\<rparr>,
                 \<lparr>s_id = ''sess-bob'', s_user_id = 2, s_expires_at = 1604800\<rparr>,
                 \<lparr>s_id = ''sess-admin'', s_user_id = 3, s_expires_at = 1604800\<rparr>],
     batches = [\<lparr>b_letter = [65], b_user_count = 3, b_is_active = True\<rparr>],
     verification_codes = [],
     next_user_id = 4, next_click_id = 1, next_withdrawal_id = 1\<rparr>"

definition click_on :: "nat \<Rightarrow> click_body" where
  "click_on pid = \<lparr>postId = Some pid, socialLink = None, autoApprove = None, other_fields = []\<rparr>"

definition forged_click :: click_body where
  "forged_click = \<lparr>postId = Some 3, socialLink = Some ''https://example.com/x'',
     autoApprove = Some True, other_fields = [(''rewardAmount'', ''999.99'')]\<rparr>"

definition two_callers :: "(timestamp \<times> req_user) list" where
  "two_callers = [(1000000, user_of_row alice_row), (1000300, user_of_row bob_row)]"

definition payout_request :: "payout_method \<Rightarrow> rat \<Rightarrow> string \<Rightarrow> withdraw_body" where
  "payout_request m a acct = \<lparr>wd_method = Some m, wd_amount = AmountValue a, wd_accountDetails = Some acct\<rparr>"

definition decision :: "string \<Rightarrow> string \<Rightarrow> process_body" where
  "decision st note = \<lparr>pb_status = Some st, pb_notes = Some note\<rparr>"

text \<open>
  The store after Alice has asked for 30.00 through Paytm and the administrator has
  approved the request.
\<close>

definition resolved_db :: db where
  "resolved_db =
     fst (process_withdrawal
       (fst (withdraw demo_db 1000000 (user_of_row alice_row) (payout_request Paytm 30 ''9000000001'')))
       1000900 1 (decision ''approved'' ''''))"

definition with_cookie :: "string \<Rightarrow> request" where
  "with_cookie sid = \<lparr>cookie_sessionId = Some sid, authorization = None\<rparr>"

text \<open>
  A request as the web client sends it: no cookie, the token in the
  \<^verbatim>\<open>Authorization\<close> header.
\<close>

definition with_bearer :: "string \<Rightarrow> request" where
  "with_bearer sid = \<lparr>cookie_sessionId = None, authorization = Some (''Bearer '' @ sid)\<rparr>"

text \<open>An amount is in whole hundredths when the store keeps it as it is.\<close>

definition whole_hundredths :: "rat \<Rightarrow> bool" where
  "whole_hundredths a = (of_decimal2 (to_decimal2 a) = a)"

text \<open>The batches \<^verbatim>\<open>A\<close> to \<^verbatim>\<open>Z\<close>, each with a thousand users.\<close>

definition full_alphabet :: "batch_row list" where
  "full_alphabet = map (\<lambda>c. \<lparr>b_letter = [c], b_user_count = 1000, b_is_active = True\<rparr>) [65..<91]"

definition full_db :: db where
  "full_db = \<lparr>users = [], posts = [], user_clicks = [], withdrawals = [], sessions = [],
     batches = full_alphabet, verification_codes = [],
     next_user_id = 26001, next_click_id = 1, next_withdrawal_id = 1\<rparr>"


chapter \<open>Properties\<close>

section \<open>Unfolding sets for evaluation\<close>

lemmas demo_defs = demo_db_def alice_row_def bob_row_def admin_row_def post_two_clicks_def
  post_one_click_def post_open_def click_on_def user_of_row_def

lemmas eval_defs = submit_click_def select_post_def existingClicks_def insert_click_def
  add_earnings_def set_click_count_def delete_post_def newClickCount_def limit_reached_def
  Let_def

lemmas wd_defs = withdraw_def below_minimum_def select_user_def sub_earnings_def
  insert_withdrawal_def process_withdrawal_def decision_of_def notes_or_null_def
  select_pending_def add_earnings_def resolve_row_def Let_def payout_request_def decision_def
  to_decimal2_def of_decimal2_def round_half_away_def

lemmas auth_defs = user_route_def post_submit_click_def post_withdraw_def sessionMiddleware_def
  sessionAuth_def token_of_def select_session_def extend_session_def seven_days_def
  with_cookie_def with_bearer_def get_me_def expiry_of_def admin_route_def
  put_withdrawal_process_def



section \<open>Settlement: facts about one request\<close>

lemma submit_click_success:
  assumes "postId body = Some pid" "pid \<noteq> 0" "select_post d pid = post # rest"
    "p_is_active post" "existingClicks d (ru_id user) pid = []"
  shows "submit_click d now user body =
     ((if limit_reached post
       then delete_post (set_click_count (add_earnings (insert_click d now (ru_id user) pid (p_reward_amount post)) (ru_id user) (p_reward_amount post)) pid (newClickCount post)) pid
       else set_click_count (add_earnings (insert_click d now (ru_id user) pid (p_reward_amount post)) (ru_id user) (p_reward_amount post)) pid (newClickCount post)),
      Inr \<lparr>clickId = next_click_id d, earnings = p_reward_amount post,
           autoDeleted = limit_reached post, engagementType = p_engagement_type post\<rparr>)"
  using assms by (simp add: submit_click_def Let_def)

lemma submit_click_InrD:
  assumes "submit_click d now user body = (d1, Inr r)"
  obtains pid post rest where "postId body = Some pid" "pid \<noteq> 0" "select_post d pid = post # rest"
    "p_is_active post" "existingClicks d (ru_id user) pid = []"
  using assms by (auto simp: submit_click_def Let_def split: option.splits if_splits list.splits)

lemma select_post_delete [simp]: "select_post (delete_post d pid) pid = []"
  by (simp add: select_post_def delete_post_def)

lemma select_post_set_count [simp]:
  "select_post (set_click_count d pid n) pid = map (\<lambda>p. p\<lparr>p_click_count := Some n\<rparr>) (select_post d pid)"
  by (simp add: select_post_def set_click_count_def filter_map o_def)

lemma select_post_add_earnings [simp]: "select_post (add_earnings d uid a) pid = select_post d pid"
  by (simp add: select_post_def add_earnings_def)

lemma select_post_insert_click [simp]: "select_post (insert_click d now uid pid' a) pid = select_post d pid"
  by (simp add: select_post_def insert_click_def)

lemma existingClicks_set_count [simp]: "existingClicks (set_click_count d pid n) uid p = existingClicks d uid p"
  by (simp add: existingClicks_def set_click_count_def)

lemma existingClicks_add_earnings [simp]: "existingClicks (add_earnings d u a) uid p = existingClicks d uid p"
  by (simp add: existingClicks_def add_earnings_def)

lemma existingClicks_insert_click:
  "existingClicks (insert_click d now u p a) uid pid =
     existingClicks d uid pid @
       (if u = uid \<and> p = pid then [\<lparr>c_id = next_click_id d, c_user_id = u, c_post_id = p,
            c_reward_amount = a, c_clicked_at = now\<rparr>] else [])"
  by (simp add: existingClicks_def insert_click_def)

lemma existingClicks_delete_post [simp]: "existingClicks (delete_post d pid) uid pid = []"
  by (simp add: existingClicks_def delete_post_def filter_empty_conv)

section \<open>Settlement: runs of requests\<close>

lemma submit_all_append:
  "submit_all d (xs @ ys) body =
     (case submit_all d xs body of
        (d1, rs1) \<Rightarrow> (case submit_all d1 ys body of (d2, rs2) \<Rightarrow> (d2, rs1 @ rs2)))"
  by (induction xs arbitrary: d) (auto split: prod.splits)

lemma submit_click_below_limit:
  assumes "postId body = Some pid" "pid \<noteq> 0" "select_post d pid = [post]"
    "p_is_active post" "existingClicks d (ru_id user) pid = []" "\<not> limit_reached post"
  shows "snd (submit_click d now user body) =
           Inr \<lparr>clickId = next_click_id d, earnings = p_reward_amount post,
                autoDeleted = False, engagementType = p_engagement_type post\<rparr>"
    and "select_post (fst (submit_click d now user body)) pid =
           [post\<lparr>p_click_count := Some (newClickCount post)\<rparr>]"
    and "uid \<noteq> ru_id user \<Longrightarrow>
           existingClicks (fst (submit_click d now user body)) uid pid = existingClicks d uid pid"
    and "next_click_id (fst (submit_click d now user body)) = next_click_id d + 1"
  using assms
  by (simp_all add: submit_click_success[where rest="[]"] existingClicks_insert_click)
     (simp_all add: set_click_count_def add_earnings_def insert_click_def)

lemma submit_all_below_limit:
  assumes "postId body = Some pid" "pid \<noteq> 0" "select_post d pid = [post]"
    "p_is_active post" "p_auto_delete_enabled post" "p_click_limit post = Some L"
    "p_click_count post = Some c" "c + int (length callers) < L"
    "distinct (map (\<lambda>x. ru_id (snd x)) callers)"
    "list_all (\<lambda>x. existingClicks d (ru_id (snd x)) pid = []) callers"
  shows "select_post (fst (submit_all d callers body)) pid =
           [post\<lparr>p_click_count := Some (c + int (length callers))\<rparr>]
       \<and> snd (submit_all d callers body) =
           map (\<lambda>i. Inr \<lparr>clickId = next_click_id d + i, earnings = p_reward_amount post,
                autoDeleted = False, engagementType = p_engagement_type post\<rparr>) [0..<length callers]
       \<and> (\<forall>uid. uid \<notin> set (map (\<lambda>x. ru_id (snd x)) callers) \<longrightarrow>
             existingClicks (fst (submit_all d callers body)) uid pid = existingClicks d uid pid)
       \<and> next_click_id (fst (submit_all d callers body)) = next_click_id d + length callers"
  using assms
proof (induction callers arbitrary: d post c)
  case Nil
  then show ?case by simp
next
  case (Cons x callers)
  obtain now user where x: "x = (now, user)" by (cases x)
  let ?d1 = "fst (submit_click d now user body)"
  let ?post1 = "post\<lparr>p_click_count := Some (c + 1)\<rparr>"
  have nl: "\<not> limit_reached post"
    using Cons.prems by (simp add: limit_reached_def newClickCount_def)
  have ncc: "newClickCount post = c + 1"
    using Cons.prems by (simp add: newClickCount_def)
  have ex: "existingClicks d (ru_id user) pid = []"
    using Cons.prems x by simp
  note st = submit_click_below_limit[OF Cons.prems(1,2,3,4) ex nl, where now=now]
  have sel1: "select_post ?d1 pid = [?post1]" using st(2) ncc by simp
  have keep: "list_all (\<lambda>y. existingClicks ?d1 (ru_id (snd y)) pid = []) callers"
  proof -
    have "existingClicks ?d1 (ru_id (snd y)) pid = []" if "y \<in> set callers" for y
    proof -
      have "ru_id (snd y) \<noteq> ru_id user" using Cons.prems(9) x that by (auto simp: image_iff)
      moreover have "existingClicks d (ru_id (snd y)) pid = []"
        using Cons.prems(10) that by (simp add: list_all_iff)
      ultimately show ?thesis using st(3) by simp
    qed
    then show ?thesis by (simp add: list_all_iff)
  qed
  have IH: "select_post (fst (submit_all ?d1 callers body)) pid =
           [?post1\<lparr>p_click_count := Some (c + 1 + int (length callers))\<rparr>]
       \<and> snd (submit_all ?d1 callers body) =
           map (\<lambda>i. Inr \<lparr>clickId = next_click_id ?d1 + i, earnings = p_reward_amount ?post1,
                autoDeleted = False, engagementType = p_engagement_type ?post1\<rparr>) [0..<length callers]
       \<and> (\<forall>uid. uid \<notin> set (map (\<lambda>x. ru_id (snd x)) callers) \<longrightarrow>
             existingClicks (fst (submit_all ?d1 callers body)) uid pid = existingClicks ?d1 uid pid)
       \<and> next_click_id (fst (submit_all ?d1 callers body)) = next_click_id ?d1 + length callers"
    using Cons.prems keep
    by (intro Cons.IH[OF Cons.prems(1,2) sel1]) simp_all
  have sp: "submit_click d now user body = (?d1, snd (submit_click d now user body))" by simp
  show ?case
    unfolding x
    apply (simp only: submit_all.simps)
    apply (subst sp)
    using IH st(1,3,4)
    by (auto simp add: split_beta map_upt_Suc add.assoc simp del: upt_Suc)
qed

lemma submit_all_single:
  "submit_all d [x] body =
     (fst (submit_click d (fst x) (snd x) body), [snd (submit_click d (fst x) (snd x) body)])"
  by (cases x) (simp add: split_beta)

lemma submit_click_at_limit:
  assumes "postId body = Some pid" "pid \<noteq> 0" "select_post d pid = [post]"
    "p_is_active post" "existingClicks d (ru_id user) pid = []" "limit_reached post"
  shows "snd (submit_click d now user body) =
           Inr \<lparr>clickId = next_click_id d, earnings = p_reward_amount post,
                autoDeleted = True, engagementType = p_engagement_type post\<rparr>"
    and "select_post (fst (submit_click d now user body)) pid = []"
    and "filter (\<lambda>c. c_post_id c = pid) (user_clicks (fst (submit_click d now user body))) = []"
  using assms
  by (simp_all add: submit_click_success[where rest="[]"])
     (simp_all add: delete_post_def filter_empty_conv)

lemma submit_click_no_post:
  assumes "select_post d pid = []" "postId body = Some pid"
  shows "submit_click d now user body = (d, Inl (if pid = 0 then PostIdRequired else PostNotFound))"
  using assms by (simp add: submit_click_def)

section \<open>No double settlement\<close>

lemma submit_click_clicked:
  assumes "existingClicks d uid pid \<noteq> []" "postId body = Some pid" "ru_id user = uid"
  shows "\<exists>e. submit_click d now user body = (d, Inl e)"
  using assms by (auto simp: submit_click_def split: list.splits)

lemma unique_user_post_submit:
  assumes "unique_user_post d"
  shows "unique_user_post (fst (submit_click d now user body))"
proof (cases "submit_click d now user body")
  case (Pair d1 res)
  show ?thesis
  proof (cases res)
    case (Inl e)
    with Pair have "d1 = d"
      by (auto simp: submit_click_def Let_def split: option.splits if_splits list.splits)
    with Pair assms show ?thesis by simp
  next
    case (Inr r)
    with Pair obtain pid post rest where h: "postId body = Some pid" "pid \<noteq> 0"
      "select_post d pid = post # rest" "p_is_active post" "existingClicks d (ru_id user) pid = []"
      by (auto elim: submit_click_InrD)
    have fresh: "(ru_id user, pid) \<notin> set (map (\<lambda>c. (c_user_id c, c_post_id c)) (user_clicks d))"
      using h(5) by (auto simp: existingClicks_def filter_empty_conv)
    show ?thesis
      using assms fresh
      by (simp add: submit_click_success[OF h] unique_user_post_def insert_click_def
          add_earnings_def set_click_count_def delete_post_def distinct_map_filter)
  qed
qed

text \<open>
  C1, as the code has it. After a submit-click by a user for a post has succeeded, a
  second one by the same user for the same post, whenever it is served and whatever
  else its body carries, leaves the whole store as it is: the click table, every
  balance and every counter. It is answered with \<open>AlreadySubmitted\<close> when the first
  settlement left the post in place, and with \<open>PostNotFound\<close> when the first
  settlement was the one that reached the click limit and removed the post. A store
  with at most one click row per (user, post) pair keeps that property. More
  generally, in any store that holds a click row of the user for the post, a
  submit-click by that user for that post fails and changes nothing.
\<close>

theorem no_double_settlement:
  assumes "unique_user_post d"
    and "submit_click d now user body = (d1, Inr r)"
    and "ru_id user2 = ru_id user" and "postId body2 = postId body"
  shows "unique_user_post d1 \<and>
         submit_click d1 now2 user2 body2 =
           (d1, Inl (if autoDeleted r then PostNotFound else AlreadySubmitted)) \<and>
         (existingClicks d3 (ru_id user) pid3 \<noteq> [] \<and> postId body3 = Some pid3 \<longrightarrow>
            (\<exists>e. submit_click d3 now3 user body3 = (d3, Inl e)))"
proof -
  from assms(2) obtain pid post rest where h: "postId body = Some pid" "pid \<noteq> 0"
      "select_post d pid = post # rest" "p_is_active post" "existingClicks d (ru_id user) pid = []"
    by (auto elim: submit_click_InrD)
  note s = submit_click_success[OF h, of now]
  have u: "unique_user_post d1"
    using unique_user_post_submit[OF assms(1), of now user body] assms(2) by simp
  have "submit_click d1 now2 user2 body2 =
           (d1, Inl (if autoDeleted r then PostNotFound else AlreadySubmitted))"
  proof (cases "limit_reached post")
    case True
    with s assms(2) have "select_post d1 pid = []" "autoDeleted r" by auto
    then show ?thesis using h(1,2) assms(4) by (simp add: submit_click_def)
  next
    case False
    with s assms(2) have a: "select_post d1 pid = post\<lparr>p_click_count := Some (newClickCount post)\<rparr> # map (\<lambda>p. p\<lparr>p_click_count := Some (newClickCount post)\<rparr>) rest"
      and b: "\<not> autoDeleted r" and c: "existingClicks d1 (ru_id user) pid \<noteq> []"
      using h(3) by (auto simp: existingClicks_insert_click)
    show ?thesis using a b c h(1,2,4) assms(3,4) by (simp add: submit_click_def)
  qed
  with u submit_click_clicked show ?thesis by blast
qed

text \<open>
  C1 as it is stated fails where the first settlement retires the post: the post with
  a click limit of one is removed by the first click, and the second submission is
  answered with \<open>PostNotFound\<close>, not with the duplicate-submission error.
\<close>

theorem no_double_settlement_counterexample:
  "snd (submit_click demo_db 1000000 (user_of_row alice_row) (click_on 2)) =
     Inr \<lparr>clickId = 1, earnings = 40, autoDeleted = True, engagementType = LikeCommentShare\<rparr>
   \<and> snd (submit_click (fst (submit_click demo_db 1000000 (user_of_row alice_row) (click_on 2)))
          1000060 (user_of_row alice_row) (click_on 2)) = Inl PostNotFound
   \<and> snd (submit_click (fst (submit_click demo_db 1000000 (user_of_row alice_row) (click_on 2)))
          1000060 (user_of_row alice_row) (click_on 2)) \<noteq> Inl AlreadySubmitted"
  by (simp add: eval_defs demo_defs)

theorem no_double_settlement_witness:
  "unique_user_post demo_db
   \<and> snd (submit_click demo_db 1000000 (user_of_row alice_row) (click_on 3)) =
       Inr \<lparr>clickId = 1, earnings = 25, autoDeleted = False, engagementType = LikeComment\<rparr>
   \<and> unique_user_post (fst (submit_click demo_db 1000000 (user_of_row alice_row) (click_on 3)))
   \<and> submit_click (fst (submit_click demo_db 1000000 (user_of_row alice_row) (click_on 3)))
        1000060 (user_of_row alice_row) (click_on 3) =
       (fst (submit_click demo_db 1000000 (user_of_row alice_row) (click_on 3)), Inl AlreadySubmitted)"
proof -
  let ?r = "\<lparr>clickId = 1, earnings = 25, autoDeleted = False, engagementType = LikeComment\<rparr>"
  have inv: "unique_user_post demo_db"
    by (simp add: unique_user_post_def demo_db_def)
  have first: "snd (submit_click demo_db 1000000 (user_of_row alice_row) (click_on 3)) = Inr ?r"
    by (simp add: eval_defs demo_defs)
  then have run: "submit_click demo_db 1000000 (user_of_row alice_row) (click_on 3) =
      (fst (submit_click demo_db 1000000 (user_of_row alice_row) (click_on 3)), Inr ?r)"
    by (metis prod.collapse)
  from no_double_settlement[OF inv run refl refl, of 1000060] inv first
  show ?thesis by simp
qed

section \<open>The auto-delete threshold\<close>

text \<open>
  C3. A post with auto-delete enabled, click limit \<open>N\<close> and a counter of 0 is clicked
  by \<open>N\<close> distinct callers who have not clicked it before. After each of the first
  \<open>N - 1\<close> settlements the post is in place with its counter incremented; every
  settlement succeeds; the \<open>N\<close>th reports \<open>autoDeleted\<close>, and after it neither the
  post nor any click row of the post is left, the \<open>N\<close>th caller's included. Any
  later submit-click for the post identifier is answered with \<open>PostNotFound\<close> and
  changes nothing.
\<close>

theorem auto_delete_threshold:
  assumes "postId body = Some pid" "pid \<noteq> 0" "select_post d pid = [post]"
    and "p_is_active post" "p_auto_delete_enabled post"
    and "p_click_limit post = Some (int N)" "p_click_count post = Some 0"
    and "length callers = N" "0 < N"
    and "distinct (map (\<lambda>x. ru_id (snd x)) callers)"
    and "list_all (\<lambda>x. existingClicks d (ru_id (snd x)) pid = []) callers"
  shows "(\<forall>k<N. select_post (fst (submit_all d (take k callers) body)) pid =
                   [post\<lparr>p_click_count := Some (int k)\<rparr>])
       \<and> snd (submit_all d callers body) =
           map (\<lambda>i. Inr \<lparr>clickId = next_click_id d + i, earnings = p_reward_amount post,
                  autoDeleted = (i = N - 1), engagementType = p_engagement_type post\<rparr>) [0..<N]
       \<and> select_post (fst (submit_all d callers body)) pid = []
       \<and> filter (\<lambda>c. c_post_id c = pid) (user_clicks (fst (submit_all d callers body))) = []
       \<and> (\<forall>now' user' body'. postId body' = Some pid \<longrightarrow>
             submit_click (fst (submit_all d callers body)) now' user' body' =
               (fst (submit_all d callers body), Inl PostNotFound))"
proof -
  have prefix: "select_post (fst (submit_all d (take k callers) body)) pid =
           [post\<lparr>p_click_count := Some (0 + int (length (take k callers)))\<rparr>]
       \<and> snd (submit_all d (take k callers) body) =
           map (\<lambda>i. Inr \<lparr>clickId = next_click_id d + i, earnings = p_reward_amount post,
                autoDeleted = False, engagementType = p_engagement_type post\<rparr>) [0..<length (take k callers)]
       \<and> (\<forall>uid. uid \<notin> set (map (\<lambda>x. ru_id (snd x)) (take k callers)) \<longrightarrow>
             existingClicks (fst (submit_all d (take k callers) body)) uid pid = existingClicks d uid pid)
       \<and> next_click_id (fst (submit_all d (take k callers) body)) = next_click_id d + length (take k callers)"
    if "k < N" for k
  proof (rule submit_all_below_limit[OF assms(1,2,3,4,5,6,7)])
    show "0 + int (length (take k callers)) < int N" using that assms(8) by simp
    show "distinct (map (\<lambda>x. ru_id (snd x)) (take k callers))"
      using assms(10) by (simp add: take_map[symmetric])
    show "list_all (\<lambda>x. existingClicks d (ru_id (snd x)) pid = []) (take k callers)"
      using assms(11) by (auto simp: list_all_iff dest: in_set_takeD)
  qed
  have A: "\<forall>k<N. select_post (fst (submit_all d (take k callers) body)) pid =
                   [post\<lparr>p_click_count := Some (int k)\<rparr>]"
    using prefix assms(8) by (simp add: min_def)
  define pre where "pre = take (N - 1) callers"
  define lst where "lst = callers ! (N - 1)"
  define d' where "d' = fst (submit_all d pre body)"
  define post' where "post' = post\<lparr>p_click_count := Some (int (N - 1))\<rparr>"
  have split: "callers = pre @ [lst]"
    using assms(8,9) unfolding pre_def lst_def
    by (metis Suc_diff_1 lessI take_Suc_conv_app_nth take_all order_refl)
  have lenpre: "length pre = N - 1" using assms(8) by (simp add: pre_def)
  have P: "select_post d' pid = [post']"
    and R: "snd (submit_all d pre body) =
           map (\<lambda>i. Inr \<lparr>clickId = next_click_id d + i, earnings = p_reward_amount post,
                autoDeleted = False, engagementType = p_engagement_type post\<rparr>) [0..<N - 1]"
    and E: "\<forall>uid. uid \<notin> set (map (\<lambda>x. ru_id (snd x)) pre) \<longrightarrow>
             existingClicks d' uid pid = existingClicks d uid pid"
    and NX: "next_click_id d' = next_click_id d + (N - 1)"
    using prefix[of "N - 1"] assms(9) lenpre unfolding pre_def[symmetric] d'_def post'_def
    by simp_all
  have notin: "ru_id (snd lst) \<notin> set (map (\<lambda>x. ru_id (snd x)) pre)"
    using assms(10) by (subst (asm) split) simp
  have ex0: "existingClicks d (ru_id (snd lst)) pid = []"
    using assms(11) by (subst (asm) split) simp
  have ex: "existingClicks d' (ru_id (snd lst)) pid = []"
    using E notin ex0 by simp
  have lr: "limit_reached post'"
    using assms(5,6,9) by (simp add: limit_reached_def newClickCount_def post'_def)
  have act: "p_is_active post'" using assms(4) by (simp add: post'_def)
  note fin = submit_click_at_limit[OF assms(1,2) P act ex lr, of "fst lst"]
  have all: "submit_all d callers body =
      (fst (submit_click d' (fst lst) (snd lst) body),
       snd (submit_all d pre body) @ [snd (submit_click d' (fst lst) (snd lst) body)])"
    by (subst split) (simp add: submit_all_append submit_all_single d'_def split_beta)
  have B: "snd (submit_all d callers body) =
           map (\<lambda>i. Inr \<lparr>clickId = next_click_id d + i, earnings = p_reward_amount post,
                  autoDeleted = (i = N - 1), engagementType = p_engagement_type post\<rparr>) [0..<N]"
  proof -
    have "[0..<N] = [0..<N - 1] @ [N - 1]" using assms(9)
      by (metis Suc_diff_1 upt_Suc_append zero_le)
    then show ?thesis
      using all R fin(1) NX by (simp add: post'_def)
  qed
  have C: "select_post (fst (submit_all d callers body)) pid = []"
    using all fin(2) by simp
  have D: "filter (\<lambda>c. c_post_id c = pid) (user_clicks (fst (submit_all d callers body))) = []"
    using all fin(3) by simp
  have F: "\<forall>now' user' body'. postId body' = Some pid \<longrightarrow>
             submit_click (fst (submit_all d callers body)) now' user' body' =
               (fst (submit_all d callers body), Inl PostNotFound)"
    using submit_click_no_post[OF C] assms(2) by simp
  from A B C D F show ?thesis by blast
qed

theorem auto_delete_threshold_witness:
  "postId (click_on 1) = Some 1 \<and> select_post demo_db 1 = [post_two_clicks]
   \<and> p_is_active post_two_clicks \<and> p_auto_delete_enabled post_two_clicks
   \<and> p_click_limit post_two_clicks = Some (int 2) \<and> p_click_count post_two_clicks = Some 0
   \<and> length two_callers = 2
   \<and> distinct (map (\<lambda>x. ru_id (snd x)) two_callers)
   \<and> list_all (\<lambda>x. existingClicks demo_db (ru_id (snd x)) 1 = []) two_callers
   \<and> select_post (fst (submit_all demo_db (take 1 two_callers) (click_on 1))) 1 =
        [post_two_clicks\<lparr>p_click_count := Some 1\<rparr>]
   \<and> snd (submit_all demo_db two_callers (click_on 1)) =
        [Inr \<lparr>clickId = 1, earnings = 15, autoDeleted = False, engagementType = Like\<rparr>,
         Inr \<lparr>clickId = 2, earnings = 15, autoDeleted = True, engagementType = Like\<rparr>]
   \<and> select_post (fst (submit_all demo_db two_callers (click_on 1))) 1 = []
   \<and> filter (\<lambda>c. c_post_id c = 1) (user_clicks (fst (submit_all demo_db two_callers (click_on 1)))) = []
   \<and> submit_click (fst (submit_all demo_db two_callers (click_on 1))) 1000600
        (user_of_row admin_row) (click_on 1) =
        (fst (submit_all demo_db two_callers (click_on 1)), Inl PostNotFound)"
proof -
  have h1: "postId (click_on 1) = Some 1" by (simp add: click_on_def)
  have h2: "(1::nat) \<noteq> 0" by simp
  have h3: "select_post demo_db 1 = [post_two_clicks]"
    by (simp add: select_post_def demo_defs)
  have h4: "p_is_active post_two_clicks" by (simp add: demo_defs)
  have h5: "p_auto_delete_enabled post_two_clicks" by (simp add: demo_defs)
  have h6: "p_click_limit post_two_clicks = Some (int 2)" by (simp add: demo_defs)
  have h7: "p_click_count post_two_clicks = Some 0" by (simp add: demo_defs)
  have h8: "length two_callers = 2" by (simp add: two_callers_def)
  have h9: "(0::nat) < 2" by simp
  have h10: "distinct (map (\<lambda>x. ru_id (snd x)) two_callers)"
    by (simp add: two_callers_def demo_defs)
  have h11: "list_all (\<lambda>x. existingClicks demo_db (ru_id (snd x)) 1 = []) two_callers"
    by (simp add: two_callers_def existingClicks_def demo_defs)
  note t = auto_delete_threshold[OF h1 h2 h3 h4 h5 h6 h7 h8 h9 h10 h11]
  have up: "[0..<2] = [0, Suc 0]" by (simp add: upt_rec)
  have k: "(1::nat) < 2" by simp
  from t have a: "select_post (fst (submit_all demo_db (take 1 two_callers) (click_on 1))) 1 =
        [post_two_clicks\<lparr>p_click_count := Some (int 1)\<rparr>]"
    using k by blast
  from t have b: "snd (submit_all demo_db two_callers (click_on 1)) =
        [Inr \<lparr>clickId = 1, earnings = 15, autoDeleted = False, engagementType = Like\<rparr>,
         Inr \<lparr>clickId = 2, earnings = 15, autoDeleted = True, engagementType = Like\<rparr>]"
    by (simp add: up demo_defs)
  from t have c: "select_post (fst (submit_all demo_db two_callers (click_on 1))) 1 = []"
    and d: "filter (\<lambda>c. c_post_id c = 1) (user_clicks (fst (submit_all demo_db two_callers (click_on 1)))) = []"
    by blast+
  from t h1 have e: "submit_click (fst (submit_all demo_db two_callers (click_on 1))) 1000600
        (user_of_row admin_row) (click_on 1) =
        (fst (submit_all demo_db two_callers (click_on 1)), Inl PostNotFound)"
    by blast
  from h1 h3 h4 h5 h6 h7 h8 h10 h11 a b c d e show ?thesis by simp
qed

section \<open>Settlement trusts the post identifier only\<close>

text \<open>
  C8. Two submit-click bodies with the same post identifier give the same store and the
  same response, whatever else they carry. When the request succeeds, the reward in
  the response, the amount added to the caller's balance and the reward written into
  the click row are the stored post's \<open>reward_amount\<close>.
\<close>

theorem settlement_ignores_payload:
  assumes "postId body2 = postId body1"
  shows "submit_click d now user body2 = submit_click d now user body1
       \<and> (\<forall>d' r. submit_click d now user body1 = (d', Inr r) \<longrightarrow>
            (\<exists>pid post rest.
               postId body1 = Some pid \<and> select_post d pid = post # rest
             \<and> earnings r = p_reward_amount post
             \<and> users d' = users (add_earnings d (ru_id user) (p_reward_amount post))
             \<and> user_clicks d' =
                 (if autoDeleted r then filter (\<lambda>c. c_post_id c \<noteq> pid) else (\<lambda>cs. cs))
                   (user_clicks d @
                     [\<lparr>c_id = next_click_id d, c_user_id = ru_id user, c_post_id = pid,
                       c_reward_amount = p_reward_amount post, c_clicked_at = now\<rparr>])))"
proof -
  have same: "submit_click d now user body2 = submit_click d now user body1"
    using assms by (simp add: submit_click_def)
  have "\<exists>pid post rest.
               postId body1 = Some pid \<and> select_post d pid = post # rest
             \<and> earnings r = p_reward_amount post
             \<and> users d' = users (add_earnings d (ru_id user) (p_reward_amount post))
             \<and> user_clicks d' =
                 (if autoDeleted r then filter (\<lambda>c. c_post_id c \<noteq> pid) else (\<lambda>cs. cs))
                   (user_clicks d @
                     [\<lparr>c_id = next_click_id d, c_user_id = ru_id user, c_post_id = pid,
                       c_reward_amount = p_reward_amount post, c_clicked_at = now\<rparr>])"
    if run: "submit_click d now user body1 = (d', Inr r)" for d' r
  proof -
    from run obtain pid post rest where h: "postId body1 = Some pid" "pid \<noteq> 0"
      "select_post d pid = post # rest" "p_is_active post" "existingClicks d (ru_id user) pid = []"
      by (auto elim: submit_click_InrD)
    from run submit_click_success[OF h, of now]
    have "earnings r = p_reward_amount post
        \<and> users d' = users (add_earnings d (ru_id user) (p_reward_amount post))
        \<and> user_clicks d' =
                 (if autoDeleted r then filter (\<lambda>c. c_post_id c \<noteq> pid) else (\<lambda>cs. cs))
                   (user_clicks d @
                     [\<lparr>c_id = next_click_id d, c_user_id = ru_id user, c_post_id = pid,
                       c_reward_amount = p_reward_amount post, c_clicked_at = now\<rparr>])"
      by (auto simp: insert_click_def add_earnings_def set_click_count_def delete_post_def)
    with h(1,3) show ?thesis by blast
  qed
  with same show ?thesis by blast
qed

theorem settlement_ignores_payload_witness:
  "postId forged_click = postId (click_on 3)
   \<and> submit_click demo_db 1000000 (user_of_row alice_row) forged_click =
       submit_click demo_db 1000000 (user_of_row alice_row) (click_on 3)
   \<and> snd (submit_click demo_db 1000000 (user_of_row alice_row) forged_click) =
       Inr \<lparr>clickId = 1, earnings = 25, autoDeleted = False, engagementType = LikeComment\<rparr>
   \<and> map u_earnings (users (fst (submit_click demo_db 1000000 (user_of_row alice_row) forged_click)))
       = [5025, 60000, 0]
   \<and> map c_reward_amount (user_clicks (fst (submit_click demo_db 1000000 (user_of_row alice_row) forged_click)))
       = [25]"
proof -
  have h: "postId forged_click = postId (click_on 3)"
    by (simp add: forged_click_def click_on_def)
  have ev: "snd (submit_click demo_db 1000000 (user_of_row alice_row) (click_on 3)) =
       Inr \<lparr>clickId = 1, earnings = 25, autoDeleted = False, engagementType = LikeComment\<rparr>"
    "map u_earnings (users (fst (submit_click demo_db 1000000 (user_of_row alice_row) (click_on 3))))
       = [5025, 60000, 0]"
    "map c_reward_amount (user_clicks (fst (submit_click demo_db 1000000 (user_of_row alice_row) (click_on 3))))
       = [25]"
    by (simp_all add: eval_defs demo_defs)
  from settlement_ignores_payload[OF h, of demo_db 1000000 "user_of_row alice_row"] h ev
  show ?thesis by simp
qed

section \<open>Rounding into a decimal column\<close>

lemma floor_rat_divide_numeral [simp]:
  "\<lfloor>(numeral a :: rat) / numeral b\<rfloor> = numeral a div numeral b"
  using floor_divide_of_int_eq [of "numeral a" "numeral b", where ?'a = rat] by simp

lemma round_half_away_of_int [simp]: "round_half_away (of_int n) = n"
proof (cases "0 \<le> n")
  case True
  have "\<lfloor>(of_int n :: rat) + 1 / 2\<rfloor> = n" by (rule floor_unique) simp_all
  with True show ?thesis by (simp add: round_half_away_def)
next
  case False
  have "\<lfloor>1 / 2 - (of_int n :: rat)\<rfloor> = - n" by (rule floor_unique) simp_all
  with False show ?thesis by (simp add: round_half_away_def)
qed

lemma to_decimal2_of_decimal2 [simp]: "to_decimal2 (of_decimal2 n) = n"
  by (simp add: to_decimal2_def of_decimal2_def)

lemma of_decimal2_diff: "of_decimal2 m - of_decimal2 n = of_decimal2 (m - n)"
  by (simp add: of_decimal2_def diff_divide_distrib)

section \<open>Withdrawals: facts about one request\<close>

lemma withdraw_InrD:
  assumes "withdraw d now user body = (d1, Inr r)"
  obtains m acct a u us where "wd_method body = Some m" "wd_accountDetails body = Some acct"
    "acct \<noteq> []" "wd_amount body = AmountValue a" "0 < a" "\<not> below_minimum m a"
    "select_user d (ru_id user) = u # us" "a \<le> of_decimal2 (u_earnings u)"
    "d1 = sub_earnings (insert_withdrawal d now (ru_id user) a m acct) (ru_id user) a"
    "r = \<lparr>wr_amount = a, wr_method = m\<rparr>"
  using assms
  by (auto simp: withdraw_def split: option.splits if_splits amount_input.splits list.splits)

lemma withdraw_InlD:
  assumes "withdraw d now user body = (d1, Inl e)"
  shows "d1 = d"
  using assms
  by (auto simp: withdraw_def split: option.splits if_splits amount_input.splits list.splits)

lemma concat_map_if:
  "concat (map (\<lambda>w. if P w then f w else []) ws) = concat (map f (filter P ws))"
  by (induction ws) auto

lemma select_pending_conv:
  "select_pending d wid =
     concat (map (\<lambda>w. map (Pair w) (select_user d (w_user_id w)))
       (filter (\<lambda>w. w_id w = wid \<and> w_status w = Pending) (withdrawals d)))"
proof -
  have inner: "concat (map (\<lambda>u. if w_user_id w = u_id u then if w_id w = wid then if w_status w = Pending then [(w, u)] else [] else [] else []) us)
      = (if w_id w = wid \<and> w_status w = Pending then map (Pair w) (filter (\<lambda>u. u_id u = w_user_id w) us) else [])"
    for w us
    by (induction us) auto
  show ?thesis
    unfolding select_pending_def select_user_def inner concat_map_if ..
qed

lemma select_pending_new:
  assumes "withdrawal_ids_issued d" "select_user d uid = u # us"
  shows "select_pending (sub_earnings (insert_withdrawal d now uid a m acct) uid a) (next_withdrawal_id d) =
     map (Pair \<lparr>w_id = next_withdrawal_id d, w_user_id = uid, w_amount = to_decimal2 a,
            w_method = m,
            w_account_details = acct, w_status = Pending, w_admin_notes = None,
            w_created_at = now, w_processed_at = None\<rparr>)
       (map (\<lambda>x. x\<lparr>u_earnings := to_decimal2 (of_decimal2 (u_earnings x) - a)\<rparr>) (u # us))"
proof -
  have old: "filter (\<lambda>w. w_id w = next_withdrawal_id d \<and> w_status w = Pending) (withdrawals d) = []"
    using assms(1) by (auto simp: withdrawal_ids_issued_def list_all_iff filter_empty_conv)
  have us: "select_user (sub_earnings (insert_withdrawal d now uid a m acct) uid a) uid
      = map (\<lambda>x. x\<lparr>u_earnings := to_decimal2 (of_decimal2 (u_earnings x) - a)\<rparr>) (select_user d uid)"
    by (simp add: select_user_def sub_earnings_def insert_withdrawal_def filter_map o_def)
  show ?thesis
    unfolding select_pending_conv
    using old us assms(2)
    by (simp add: sub_earnings_def insert_withdrawal_def select_user_def)
qed

lemma process_withdrawal_success:
  assumes "decision_of (pb_status body) = Some st" "select_pending d wid = (w, u) # rest"
  shows "process_withdrawal d now wid body =
     (resolve_row (if st = Declined then add_earnings d (w_user_id w) (w_amount w) else d)
        now wid st (notes_or_null (pb_notes body)),
      Inr \<lparr>pr_id = wid, pr_status = st, pr_amount = w_amount w,
           pr_user = u_full_name u, pr_refunded = (st = Declined)\<rparr>)"
  using assms by (simp add: process_withdrawal_def Let_def)

lemma users_resolve_row [simp]: "users (resolve_row d now wid st n) = users d"
  by (simp add: resolve_row_def)

lemma credit_after_debit:
  assumes "whole_hundredths a"
  shows "users (add_earnings (sub_earnings (insert_withdrawal d now uid a m acct) uid a) uid
            (to_decimal2 a)) = users d"
proof -
  have eq: "to_decimal2 (of_decimal2 e - a) + to_decimal2 a = e" for e
  proof -
    have "of_decimal2 e - a = of_decimal2 (e - to_decimal2 a)"
      using assms by (metis of_decimal2_diff whole_hundredths_def)
    then show ?thesis by simp
  qed
  have "map ((\<lambda>x. if u_id x = uid then x\<lparr>u_earnings := u_earnings x + to_decimal2 a\<rparr> else x) \<circ>
             (\<lambda>x. if u_id x = uid
                   then x\<lparr>u_earnings := to_decimal2 (of_decimal2 (u_earnings x) - a)\<rparr> else x)) xs = xs" for xs
    by (induction xs) (auto simp: eq)
  then show ?thesis
    by (simp add: add_earnings_def sub_earnings_def insert_withdrawal_def)
qed

lemma process_withdrawal_InlD:
  assumes "process_withdrawal d now wid body = (d', Inl e)"
  shows "d' = d"
  using assms
  by (auto simp: process_withdrawal_def Let_def split: option.splits list.splits)

lemma select_pending_empty:
  assumes "list_all (\<lambda>w. w_id w = wid \<longrightarrow> w_status w \<noteq> Pending) (withdrawals d)"
  shows "select_pending d wid = []"
proof -
  have "filter (\<lambda>w. w_id w = wid \<and> w_status w = Pending) (withdrawals d) = []"
    using assms by (auto simp: list_all_iff filter_empty_conv)
  then show ?thesis by (simp add: select_pending_conv)
qed

lemma withdraw_server_checks:
  "(\<exists>d1 r. withdraw d now user body = (d1, Inr r)) =
     (\<exists>m acct a u us. wd_method body = Some m \<and> wd_accountDetails body = Some acct \<and> acct \<noteq> []
        \<and> wd_amount body = AmountValue a \<and> 0 < a \<and> \<not> below_minimum m a
        \<and> select_user d (ru_id user) = u # us \<and> a \<le> of_decimal2 (u_earnings u))"
  by (auto simp: withdraw_def split: option.splits amount_input.splits list.splits)

section \<open>Balance conservation on decline\<close>

text \<open>
  For an amount in whole hundredths the request and the decline cancel: the request is
  accepted, the decline of the row it created succeeds and refunds the stored amount,
  and the users table is again what it was before the request.
\<close>

lemma decline_restores_whole_hundredths:
  assumes "withdrawal_ids_issued d"
    and "withdraw d now user body = (d1, Inr r)"
    and "whole_hundredths (wr_amount r)"
    and "pb_status pbody = Some ''declined''"
  shows "users d1 = users (sub_earnings d (ru_id user) (wr_amount r))
       \<and> select_user d (ru_id user) \<noteq> []
       \<and> (\<exists>d2 r2. process_withdrawal d1 now2 (next_withdrawal_id d) pbody = (d2, Inr r2)
             \<and> pr_refunded r2 \<and> of_decimal2 (pr_amount r2) = wr_amount r
             \<and> users d2 = users d)"
proof -
  from assms(2) obtain m acct a u us where h: "wd_method body = Some m"
    "wd_accountDetails body = Some acct" "acct \<noteq> []" "wd_amount body = AmountValue a" "0 < a"
    "\<not> below_minimum m a" "select_user d (ru_id user) = u # us" "a \<le> of_decimal2 (u_earnings u)"
    "d1 = sub_earnings (insert_withdrawal d now (ru_id user) a m acct) (ru_id user) a"
    "r = \<lparr>wr_amount = a, wr_method = m\<rparr>"
    by (rule withdraw_InrD)
  have wh: "whole_hundredths a" using assms(3) h(10) by simp
  have A: "users d1 = users (sub_earnings d (ru_id user) (wr_amount r))"
    using h(9,10) by (simp add: sub_earnings_def insert_withdrawal_def)
  have B: "select_user d (ru_id user) \<noteq> []" using h(7) by simp
  note sp = select_pending_new[OF assms(1) h(7), of now a m acct]
  have dec: "decision_of (pb_status pbody) = Some Declined"
    using assms(4) by (simp add: decision_of_def)
  have C: "\<exists>d2 r2. process_withdrawal d1 now2 (next_withdrawal_id d) pbody = (d2, Inr r2)
             \<and> pr_refunded r2 \<and> of_decimal2 (pr_amount r2) = wr_amount r \<and> users d2 = users d"
    using sp h(10) wh
    by (simp add: process_withdrawal_success[OF dec] h(9) credit_after_debit whole_hundredths_def)
  from A B C show ?thesis by blast
qed

lemma decline_restores_whole_hundredths_example:
  "withdrawal_ids_issued demo_db
   \<and> snd (withdraw demo_db 1000000 (user_of_row alice_row) (payout_request Paytm 30 ''9000000001''))
        = Inr \<lparr>wr_amount = 30, wr_method = Paytm\<rparr>
   \<and> whole_hundredths 30
   \<and> map u_earnings (users (fst (withdraw demo_db 1000000 (user_of_row alice_row)
          (payout_request Paytm 30 ''9000000001'')))) = [2000, 60000, 0]
   \<and> users (fst (process_withdrawal
          (fst (withdraw demo_db 1000000 (user_of_row alice_row) (payout_request Paytm 30 ''9000000001'')))
          1000900 1 (decision ''declined'' ''wrong number''))) = users demo_db"
proof -
  let ?w = "withdraw demo_db 1000000 (user_of_row alice_row) (payout_request Paytm 30 ''9000000001'')"
  have inv: "withdrawal_ids_issued demo_db"
    by (simp add: withdrawal_ids_issued_def demo_db_def)
  have ok: "snd ?w = Inr \<lparr>wr_amount = 30, wr_method = Paytm\<rparr>"
    by (simp add: wd_defs demo_defs)
  then have run: "?w = (fst ?w, Inr \<lparr>wr_amount = 30, wr_method = Paytm\<rparr>)"
    by (metis prod.collapse)
  have wh: "whole_hundredths 30"
    by (simp add: whole_hundredths_def to_decimal2_def of_decimal2_def round_half_away_def)
  then have wh': "whole_hundredths (wr_amount \<lparr>wr_amount = 30, wr_method = Paytm\<rparr>)" by simp
  have dec: "pb_status (decision ''declined'' ''wrong number'') = Some ''declined''"
    by (simp add: decision_def)
  have nx: "next_withdrawal_id demo_db = 1" by (simp add: demo_db_def)
  have e1: "map u_earnings (users (fst ?w)) = [2000, 60000, 0]"
    by (simp add: wd_defs demo_defs)
  from decline_restores_whole_hundredths[OF inv run wh' dec, of 1000900]
  have e3: "users (fst (process_withdrawal (fst ?w) 1000900 1 (decision ''declined'' ''wrong number''))) = users demo_db"
    by (auto simp: nx)
  from inv ok wh e1 e3 show ?thesis by simp
qed

text \<open>
  C2. The handler accepts an amount with more than two decimals. For Alice's balance of
  50.00 and a Paytm request of 0.125, the row of the withdrawal keeps 0.13 and the
  balance becomes 49.88; declining the withdrawal refunds the stored 0.13 and the
  balance ends at 50.01, not at 50.00. For Bob's balance of 600.00 and an Amazon request
  of 100.125 the row keeps 100.13, the balance becomes 499.88, and the decline leaves
  600.01. Both amounts are eighths, which a JavaScript number holds exactly.
\<close>

theorem decline_after_fractional_request:
  "map u_earnings (users demo_db) = [5000, 60000, 0]
   \<and> snd (withdraw demo_db 1000000 (user_of_row alice_row) (payout_request Paytm (1 / 8) ''x''))
       = Inr \<lparr>wr_amount = 1 / 8, wr_method = Paytm\<rparr>
   \<and> map w_amount (withdrawals (fst (withdraw demo_db 1000000 (user_of_row alice_row)
          (payout_request Paytm (1 / 8) ''x'')))) = [13]
   \<and> map u_earnings (users (fst (withdraw demo_db 1000000 (user_of_row alice_row)
          (payout_request Paytm (1 / 8) ''x'')))) = [4988, 60000, 0]
   \<and> snd (process_withdrawal
          (fst (withdraw demo_db 1000000 (user_of_row alice_row) (payout_request Paytm (1 / 8) ''x'')))
          1000900 1 (decision ''declined'' ''''))
       = Inr \<lparr>pr_id = 1, pr_status = Declined, pr_amount = 13, pr_user = ''Alice'',
              pr_refunded = True\<rparr>
   \<and> map u_earnings (users (fst (process_withdrawal
          (fst (withdraw demo_db 1000000 (user_of_row alice_row) (payout_request Paytm (1 / 8) ''x'')))
          1000900 1 (decision ''declined'' '''')))) = [5001, 60000, 0]
   \<and> snd (withdraw demo_db 1000000 (user_of_row bob_row)
          (payout_request Amazon (100 + 1 / 8) ''bob@example.com''))
       = Inr \<lparr>wr_amount = 100 + 1 / 8, wr_method = Amazon\<rparr>
   \<and> map w_amount (withdrawals (fst (withdraw demo_db 1000000 (user_of_row bob_row)
          (payout_request Amazon (100 + 1 / 8) ''bob@example.com'')))) = [10013]
   \<and> map u_earnings (users (fst (withdraw demo_db 1000000 (user_of_row bob_row)
          (payout_request Amazon (100 + 1 / 8) ''bob@example.com'')))) = [5000, 49988, 0]
   \<and> map u_earnings (users (fst (process_withdrawal
          (fst (withdraw demo_db 1000000 (user_of_row bob_row)
             (payout_request Amazon (100 + 1 / 8) ''bob@example.com'')))
          1000900 1 (decision ''declined'' '''')))) = [5000, 60001, 0]"
  by (simp add: wd_defs demo_defs)

section \<open>Only a pending withdrawal is resolved\<close>

text \<open>
  C4. The admin's decision succeeds only when a withdrawal with the given identifier is
  pending. Every failing call leaves the store unchanged; when no row with the
  identifier is pending (it is approved or declined already), a well-formed decision
  is answered with \<open>WithdrawalNotFoundOrProcessed\<close>. An approval never changes the
  users table: either nothing is written, or the status, the processing time and the
  note of the rows with that identifier are set and nothing else.
\<close>

theorem resolve_only_pending:
  "(\<forall>d' r. process_withdrawal d now wid body = (d', Inr r) \<longrightarrow>
       (\<exists>w. w \<in> set (withdrawals d) \<and> w_id w = wid \<and> w_status w = Pending))
   \<and> (\<forall>d' e. process_withdrawal d now wid body = (d', Inl e) \<longrightarrow> d' = d)
   \<and> (list_all (\<lambda>w. w_id w = wid \<longrightarrow> w_status w \<noteq> Pending) (withdrawals d) \<longrightarrow>
        process_withdrawal d now wid body =
          (d, Inl (if decision_of (pb_status body) = None then StatusMustBeApprovedOrDeclined
                   else WithdrawalNotFoundOrProcessed)))
   \<and> (pb_status body = Some ''approved'' \<longrightarrow>
        users (fst (process_withdrawal d now wid body)) = users d
        \<and> (fst (process_withdrawal d now wid body) = d
            \<or> fst (process_withdrawal d now wid body) =
                resolve_row d now wid Approved (notes_or_null (pb_notes body))))"
proof -
  have A: "\<exists>w. w \<in> set (withdrawals d) \<and> w_id w = wid \<and> w_status w = Pending"
    if "process_withdrawal d now wid body = (d', Inr r)" for d' r
  proof -
    from that have "select_pending d wid \<noteq> []"
      by (auto simp: process_withdrawal_def split: option.splits list.splits)
    then obtain w where "w \<in> set (filter (\<lambda>w. w_id w = wid \<and> w_status w = Pending) (withdrawals d))"
      unfolding select_pending_conv by fastforce
    then show ?thesis by auto
  qed
  have B: "\<forall>d' e. process_withdrawal d now wid body = (d', Inl e) \<longrightarrow> d' = d"
    by (auto dest: process_withdrawal_InlD)
  have C: "process_withdrawal d now wid body =
          (d, Inl (if decision_of (pb_status body) = None then StatusMustBeApprovedOrDeclined
                   else WithdrawalNotFoundOrProcessed))"
    if "list_all (\<lambda>w. w_id w = wid \<longrightarrow> w_status w \<noteq> Pending) (withdrawals d)"
    using select_pending_empty[OF that]
    by (auto simp: process_withdrawal_def split: option.splits)
  have D: "users (fst (process_withdrawal d now wid body)) = users d
        \<and> (fst (process_withdrawal d now wid body) = d
            \<or> fst (process_withdrawal d now wid body) =
                resolve_row d now wid Approved (notes_or_null (pb_notes body)))"
    if "pb_status body = Some ''approved''"
    using that
    by (auto simp: process_withdrawal_def decision_of_def Let_def split: list.splits)
  from A B C D show ?thesis by blast
qed

theorem resolve_only_pending_witness:
  "snd (process_withdrawal
       (fst (withdraw demo_db 1000000 (user_of_row alice_row) (payout_request Paytm 30 ''9000000001'')))
       1000900 1 (decision ''approved'' ''''))
     = Inr \<lparr>pr_id = 1, pr_status = Approved, pr_amount = 3000, pr_user = ''Alice'', pr_refunded = False\<rparr>
   \<and> map u_earnings (users resolved_db) = [2000, 60000, 0]
   \<and> withdrawals resolved_db =
       [\<lparr>w_id = 1, w_user_id = 1, w_amount = 3000, w_method = Paytm,
         w_account_details = ''9000000001'', w_status = Approved, w_admin_notes = None,
         w_created_at = 1000000, w_processed_at = Some 1000900\<rparr>]
   \<and> list_all (\<lambda>w. w_id w \<noteq> 1 \<or> w_status w \<noteq> Pending) (withdrawals resolved_db)
   \<and> process_withdrawal resolved_db 1001800 1 (decision ''declined'' ''changed my mind'')
       = (resolved_db, Inl WithdrawalNotFoundOrProcessed)
   \<and> process_withdrawal resolved_db 1001800 1 (decision ''approved'' ''again'')
       = (resolved_db, Inl WithdrawalNotFoundOrProcessed)"
proof -
  let ?d1 = "fst (withdraw demo_db 1000000 (user_of_row alice_row) (payout_request Paytm 30 ''9000000001''))"
  have a: "snd (process_withdrawal ?d1 1000900 1 (decision ''approved'' ''''))
     = Inr \<lparr>pr_id = 1, pr_status = Approved, pr_amount = 3000, pr_user = ''Alice'', pr_refunded = False\<rparr>"
    by (simp add: wd_defs demo_defs)
  have st: "pb_status (decision ''approved'' '''') = Some ''approved''" by (simp add: decision_def)
  have w0: "map u_earnings (users ?d1) = [2000, 60000, 0]" by (simp add: wd_defs demo_defs)
  from resolve_only_pending[of ?d1 1000900 1 "decision ''approved'' ''''"] st
  have "users resolved_db = users ?d1" unfolding resolved_db_def by blast
  with w0 have b: "map u_earnings (users resolved_db) = [2000, 60000, 0]" by simp
  have c: "withdrawals resolved_db =
       [\<lparr>w_id = 1, w_user_id = 1, w_amount = 3000, w_method = Paytm,
         w_account_details = ''9000000001'', w_status = Approved, w_admin_notes = None,
         w_created_at = 1000000, w_processed_at = Some 1000900\<rparr>]"
    by (simp add: resolved_db_def wd_defs demo_defs)
  then have terminal: "list_all (\<lambda>w. w_id w = 1 \<longrightarrow> w_status w \<noteq> Pending) (withdrawals resolved_db)"
    by simp
  have dd: "decision_of (pb_status (decision ''declined'' ''changed my mind'')) \<noteq> None"
    "decision_of (pb_status (decision ''approved'' ''again'')) \<noteq> None"
    by (simp_all add: decision_of_def decision_def)
  from resolve_only_pending[of resolved_db 1001800 1 "decision ''declined'' ''changed my mind''"] terminal dd
  have e: "process_withdrawal resolved_db 1001800 1 (decision ''declined'' ''changed my mind'')
       = (resolved_db, Inl WithdrawalNotFoundOrProcessed)" by simp
  from resolve_only_pending[of resolved_db 1001800 1 "decision ''approved'' ''again''"] terminal dd
  have f: "process_withdrawal resolved_db 1001800 1 (decision ''approved'' ''again'')
       = (resolved_db, Inl WithdrawalNotFoundOrProcessed)" by simp
  from a b c e f show ?thesis by simp
qed

section \<open>What the server validates on a withdrawal\<close>

text \<open>
  C5. The server's handler accepts a Paytm request for 1.00 with the destination
  \<open>x\<close>: it debits the wallet and stores a pending withdrawal, although the amount
  is below the global minimum of 30.00 and below Paytm's own minimum, and the
  destination is not a ten-digit number. The client's form refuses the same input. The
  handler enforces the minimums of Amazon and PhonePe, and accepts an Amazon request
  whose destination holds no \<^verbatim>\<open>@\<close>, which the form refuses too.
\<close>

theorem withdraw_unchecked_request:
  "snd (withdraw demo_db 1000000 (user_of_row alice_row) (payout_request Paytm 1 ''x''))
     = Inr \<lparr>wr_amount = 1, wr_method = Paytm\<rparr>
   \<and> map u_earnings (users (fst (withdraw demo_db 1000000 (user_of_row alice_row) (payout_request Paytm 1 ''x''))))
     = [4900, 60000, 0]
   \<and> map (\<lambda>w. (w_user_id w, w_amount w, w_method w, w_account_details w, w_status w))
       (withdrawals (fst (withdraw demo_db 1000000 (user_of_row alice_row) (payout_request Paytm 1 ''x''))))
     = [(1, 100, Paytm, ''x'', Pending)]
   \<and> handleSubmit (Some Paytm) (AmountValue 1) ''x'' (Some 50) = Some (MinimumIs 30)
   \<and> handleSubmit (Some Paytm) (AmountValue 30) ''x'' (Some 50) = Some EnterValidMobile
   \<and> snd (withdraw demo_db 1000000 (user_of_row alice_row) (payout_request Amazon 50 ''not an address''))
     = Inl (MinimumWithdrawal Amazon 100)
   \<and> snd (withdraw demo_db 1000000 (user_of_row bob_row) (payout_request Amazon 100 ''not an address''))
     = Inr \<lparr>wr_amount = 100, wr_method = Amazon\<rparr>
   \<and> handleSubmit (Some Amazon) (AmountValue 100) ''not an address'' (Some 600) = Some EnterValidEmail"
  by (simp add: wd_defs demo_defs handleSubmit_def MIN_WITHDRAWAL_AMOUNT_def ten_digits_def is_digit_def)

section \<open>Sessions: the checks in front of the handlers\<close>

lemma select_session_conv:
  "select_session d now sid =
     concat (map (\<lambda>s. map (Pair s) (select_user d (s_user_id s)))
       (filter (\<lambda>s. s_id s = sid \<and> now < s_expires_at s) (sessions d)))"
proof -
  have inner: "concat (map (\<lambda>u. if s_user_id s = u_id u then if s_id s = sid then if now < s_expires_at s then [(s, u)] else [] else [] else []) us)
      = (if s_id s = sid \<and> now < s_expires_at s then map (Pair s) (filter (\<lambda>u. u_id u = s_user_id s) us) else [])"
    for s us
    by (induction us) auto
  show ?thesis
    unfolding select_session_def select_user_def inner concat_map_if ..
qed

lemma select_session_unique:
  assumes "filter (\<lambda>s. s_id s = sid) (sessions d) = [s]" "now < s_expires_at s"
  shows "select_session d now sid = map (Pair s) (select_user d (s_user_id s))"
proof -
  have "filter (\<lambda>s. s_id s = sid \<and> now < s_expires_at s) (sessions d)
      = filter (\<lambda>s. now < s_expires_at s) (filter (\<lambda>s. s_id s = sid) (sessions d))"
    by (simp add: conj_commute)
  then show ?thesis using assms by (simp add: select_session_conv)
qed

lemma extend_session_tables [simp]:
  "users (extend_session d now sid) = users d"
  "posts (extend_session d now sid) = posts d"
  "user_clicks (extend_session d now sid) = user_clicks d"
  "withdrawals (extend_session d now sid) = withdrawals d"
  "next_click_id (extend_session d now sid) = next_click_id d"
  "next_withdrawal_id (extend_session d now sid) = next_withdrawal_id d"
  by (simp_all add: extend_session_def)

lemma filter_extend_session:
  "filter (\<lambda>s. s_id s = sid) (sessions (extend_session d now sid)) =
     map (\<lambda>s. s\<lparr>s_expires_at := now + seven_days\<rparr>) (filter (\<lambda>s. s_id s = sid) (sessions d))"
  by (simp add: extend_session_def filter_map o_def)

lemma select_user_extend [simp]: "select_user (extend_session d now sid) uid = select_user d uid"
  by (simp add: select_user_def)

lemma valid_cookie_passes:
  assumes "cookie_sessionId req = Some sid" "sid \<noteq> []"
    and "filter (\<lambda>s. s_id s = sid) (sessions d) = [s]" "now < s_expires_at s"
    and "select_user d (s_user_id s) = u # us"
  shows "sessionMiddleware d now req = Inr (extend_session d now sid, user_of_row u)"
    and "sessionAuth (extend_session d now sid) now req = Inr (user_of_row u)"
proof -
  show "sessionMiddleware d now req = Inr (extend_session d now sid, user_of_row u)"
    using assms by (simp add: sessionMiddleware_def select_session_unique)
  have f: "filter (\<lambda>s. s_id s = sid) (sessions (extend_session d now sid)) = [s\<lparr>s_expires_at := now + seven_days\<rparr>]"
    using assms(3) by (simp add: filter_extend_session)
  have "select_session (extend_session d now sid) now sid =
      map (Pair (s\<lparr>s_expires_at := now + seven_days\<rparr>)) (u # us)"
    using select_session_unique[OF f, of now] assms(5) by (simp add: seven_days_def)
  then show "sessionAuth (extend_session d now sid) now req = Inr (user_of_row u)"
    using assms(1,2) by (simp add: sessionAuth_def token_of_def)
qed

lemma user_route_valid_cookie:
  assumes "cookie_sessionId req = Some sid" "sid \<noteq> []"
    and "filter (\<lambda>s. s_id s = sid) (sessions d) = [s]" "now < s_expires_at s"
    and "select_user d (s_user_id s) = u # us"
  shows "user_route handler d now req body = handler (extend_session d now sid) now (user_of_row u) body"
  using valid_cookie_passes[OF assms] by (simp add: user_route_def)

lemma sessionMiddleware_slides:
  assumes "sessionMiddleware d now req = Inr (d', u)"
  shows "\<exists>sid. cookie_sessionId req = Some sid \<and> d' = extend_session d now sid
           \<and> expiry_of d' sid = Some (now + seven_days)"
proof -
  from assms obtain sid s0 u0 rest where c: "cookie_sessionId req = Some sid"
    and sel: "select_session d now sid = (s0, u0) # rest" and d': "d' = extend_session d now sid"
    by (auto simp: sessionMiddleware_def split: option.splits if_splits list.splits)
  from sel have "filter (\<lambda>s. s_id s = sid \<and> now < s_expires_at s) (sessions d) \<noteq> []"
    by (auto simp: select_session_conv)
  then obtain s where "s \<in> set (sessions d)" "s_id s = sid"
    by (auto simp: filter_empty_conv)
  then have "filter (\<lambda>s. s_id s = sid) (sessions d) \<noteq> []"
    by (auto simp: filter_empty_conv)
  then obtain x xs where "filter (\<lambda>s. s_id s = sid) (sessions d) = x # xs"
    by (cases "filter (\<lambda>s. s_id s = sid) (sessions d)") auto
  then have "expiry_of d' sid = Some (now + seven_days)"
    by (simp add: expiry_of_def d' filter_extend_session)
  with c d' show ?thesis by blast
qed

lemma get_me_reads_only: "fst (get_me d now req) = d"
  by (simp add: get_me_def split: option.splits list.splits)

section \<open>A session is enough to settle and to withdraw\<close>

text \<open>
  A request whose cookie names an unexpired session of a user whose verified flag is
  false passes both session checks. Its submit-click on an active post the user has not
  clicked succeeds and credits the reward; its withdrawal succeeds under the handler's
  amount checks, debits the balance and appends the pending row. Neither route looks at
  the verified flag.
\<close>

lemma cookie_session_suffices_unverified:
  assumes "cookie_sessionId req = Some sid" "sid \<noteq> []"
    and "filter (\<lambda>s. s_id s = sid) (sessions d) = [s]" "now < s_expires_at s"
    and "select_user d (s_user_id s) = u # us"
    and "\<not> u_is_verified u"
  shows "(postId cb = Some pid \<and> pid \<noteq> 0 \<and> select_post d pid = post # ps \<and> p_is_active post
          \<and> existingClicks d (u_id u) pid = [] \<longrightarrow>
            (\<exists>d' r. post_submit_click d now req cb = (d', Inr r)
               \<and> earnings r = p_reward_amount post
               \<and> users d' = users (add_earnings d (u_id u) (p_reward_amount post))))
       \<and> (wd_method wb = Some m \<and> wd_accountDetails wb = Some acct \<and> acct \<noteq> []
          \<and> wd_amount wb = AmountValue a \<and> 0 < a \<and> \<not> below_minimum m a
          \<and> a \<le> of_decimal2 (u_earnings u) \<longrightarrow>
            (\<exists>d'. post_withdraw d now req wb = (d', Inr \<lparr>wr_amount = a, wr_method = m\<rparr>)
               \<and> users d' = users (sub_earnings d (u_id u) a)
               \<and> withdrawals d' = withdrawals d @
                    [\<lparr>w_id = next_withdrawal_id d, w_user_id = u_id u, w_amount = to_decimal2 a,
                      w_method = m, w_account_details = acct, w_status = Pending,
                      w_admin_notes = None, w_created_at = now, w_processed_at = None\<rparr>]))"
proof -
  let ?d1 = "extend_session d now sid"
  have id: "ru_id (user_of_row u) = u_id u" by (simp add: user_of_row_def)
  have click: "\<exists>d' r. post_submit_click d now req cb = (d', Inr r)
               \<and> earnings r = p_reward_amount post
               \<and> users d' = users (add_earnings d (u_id u) (p_reward_amount post))"
    if h: "postId cb = Some pid" "pid \<noteq> 0" "select_post d pid = post # ps" "p_is_active post"
      "existingClicks d (u_id u) pid = []"
  proof -
    have sp: "select_post ?d1 pid = post # ps" using h(3) by (simp add: select_post_def)
    have ex: "existingClicks ?d1 (ru_id (user_of_row u)) pid = []"
      using h(5) by (simp add: existingClicks_def id)
    show ?thesis
      unfolding post_submit_click_def user_route_valid_cookie[OF assms(1-5)]
        submit_click_success[OF h(1,2) sp h(4) ex]
      by (simp add: id add_earnings_def set_click_count_def insert_click_def delete_post_def)
  qed
  have wd: "\<exists>d'. post_withdraw d now req wb = (d', Inr \<lparr>wr_amount = a, wr_method = m\<rparr>)
               \<and> users d' = users (sub_earnings d (u_id u) a)
               \<and> withdrawals d' = withdrawals d @
                    [\<lparr>w_id = next_withdrawal_id d, w_user_id = u_id u, w_amount = to_decimal2 a,
                      w_method = m, w_account_details = acct, w_status = Pending,
                      w_admin_notes = None, w_created_at = now, w_processed_at = None\<rparr>]"
    if h: "wd_method wb = Some m" "wd_accountDetails wb = Some acct" "acct \<noteq> []"
      "wd_amount wb = AmountValue a" "0 < a" "\<not> below_minimum m a"
      "a \<le> of_decimal2 (u_earnings u)"
  proof -
    have "u \<in> set (select_user d (s_user_id s))" using assms(5) by simp
    then have "u_id u = s_user_id s" by (simp add: select_user_def)
    then have su: "select_user ?d1 (ru_id (user_of_row u)) = u # us"
      using assms(5) by (simp add: id)
    show ?thesis
      unfolding post_withdraw_def user_route_valid_cookie[OF assms(1-5)]
      using h su
      by (simp add: withdraw_def id sub_earnings_def insert_withdrawal_def)
  qed
  from click wd show ?thesis by blast
qed

lemma cookie_session_suffices_unverified_example:
  "cookie_sessionId (with_cookie ''sess-bob'') = Some ''sess-bob''
   \<and> filter (\<lambda>s. s_id s = ''sess-bob'') (sessions demo_db) =
        [\<lparr>s_id = ''sess-bob'', s_user_id = 2, s_expires_at = 1604800\<rparr>]
   \<and> select_user demo_db 2 = [bob_row] \<and> u_is_verified bob_row = False
   \<and> map u_earnings (users (fst (post_submit_click demo_db 1000000 (with_cookie ''sess-bob'') (click_on 3))))
        = [5000, 60025, 0]
   \<and> snd (post_withdraw demo_db 1000000 (with_cookie ''sess-bob'') (payout_request Phonepe 500 ''9000000002''))
        = Inr \<lparr>wr_amount = 500, wr_method = Phonepe\<rparr>
   \<and> map u_earnings (users (fst (post_withdraw demo_db 1000000 (with_cookie ''sess-bob'')
          (payout_request Phonepe 500 ''9000000002'')))) = [5000, 10000, 0]
   \<and> withdrawals (fst (post_withdraw demo_db 1000000 (with_cookie ''sess-bob'')
          (payout_request Phonepe 500 ''9000000002''))) =
        [\<lparr>w_id = 1, w_user_id = 2, w_amount = 50000, w_method = Phonepe,
          w_account_details = ''9000000002'', w_status = Pending, w_admin_notes = None,
          w_created_at = 1000000, w_processed_at = None\<rparr>]"
proof -
  let ?s = "\<lparr>s_id = ''sess-bob'', s_user_id = 2, s_expires_at = 1604800\<rparr>"
  have h1: "cookie_sessionId (with_cookie ''sess-bob'') = Some ''sess-bob''"
    by (simp add: with_cookie_def)
  have h2: "''sess-bob'' \<noteq> []" by simp
  have h3: "filter (\<lambda>s. s_id s = ''sess-bob'') (sessions demo_db) = [?s]"
    by (simp add: demo_db_def)
  have h4: "1000000 < s_expires_at ?s" by simp
  have h5: "select_user demo_db (s_user_id ?s) = [bob_row]"
    by (simp add: select_user_def demo_defs)
  have h6: "\<not> u_is_verified bob_row" by (simp add: bob_row_def)
  note t = cookie_session_suffices_unverified[OF h1 h2 h3 h4 h5 h6,
      of "click_on 3" 3 post_open "[]" "payout_request Phonepe 500 ''9000000002''" Phonepe
         "''9000000002''" 500]
  have c: "postId (click_on 3) = Some 3 \<and> (3::nat) \<noteq> 0 \<and> select_post demo_db 3 = [post_open]
      \<and> p_is_active post_open \<and> existingClicks demo_db (u_id bob_row) 3 = []"
    by (simp add: select_post_def existingClicks_def demo_defs)
  have w: "wd_method (payout_request Phonepe 500 ''9000000002'') = Some Phonepe
      \<and> wd_accountDetails (payout_request Phonepe 500 ''9000000002'') = Some ''9000000002''
      \<and> ''9000000002'' \<noteq> [] \<and> wd_amount (payout_request Phonepe 500 ''9000000002'') = AmountValue 500
      \<and> (0::rat) < 500 \<and> \<not> below_minimum Phonepe 500 \<and> 500 \<le> of_decimal2 (u_earnings bob_row)"
    by (simp add: payout_request_def below_minimum_def bob_row_def of_decimal2_def)
  from t c obtain d' r where
    r1: "post_submit_click demo_db 1000000 (with_cookie ''sess-bob'') (click_on 3) = (d', Inr r)"
    and r3: "users d' = users (add_earnings demo_db (u_id bob_row) (p_reward_amount post_open))"
    by blast
  from t w obtain d'' where
    w1: "post_withdraw demo_db 1000000 (with_cookie ''sess-bob'') (payout_request Phonepe 500 ''9000000002'')
        = (d'', Inr \<lparr>wr_amount = 500, wr_method = Phonepe\<rparr>)"
    and w2: "users d'' = users (sub_earnings demo_db (u_id bob_row) 500)"
    and w3: "withdrawals d'' = withdrawals demo_db @
        [\<lparr>w_id = next_withdrawal_id demo_db, w_user_id = u_id bob_row, w_amount = to_decimal2 500,
          w_method = Phonepe, w_account_details = ''9000000002'', w_status = Pending,
          w_admin_notes = None, w_created_at = 1000000, w_processed_at = None\<rparr>]"
    by blast
  have b: "map u_earnings (users (fst (post_submit_click demo_db 1000000 (with_cookie ''sess-bob'') (click_on 3))))
        = [5000, 60025, 0]"
    using r1 r3 by (simp add: add_earnings_def demo_defs)
  have e: "map u_earnings (users (fst (post_withdraw demo_db 1000000 (with_cookie ''sess-bob'')
          (payout_request Phonepe 500 ''9000000002'')))) = [5000, 10000, 0]"
    using w1 w2
    by (simp add: sub_earnings_def demo_defs to_decimal2_def of_decimal2_def round_half_away_def)
  have f: "withdrawals (fst (post_withdraw demo_db 1000000 (with_cookie ''sess-bob'')
          (payout_request Phonepe 500 ''9000000002''))) =
        [\<lparr>w_id = 1, w_user_id = 2, w_amount = 50000, w_method = Phonepe,
          w_account_details = ''9000000002'', w_status = Pending, w_admin_notes = None,
          w_created_at = 1000000, w_processed_at = None\<rparr>]"
    using w1 w3 by (simp add: demo_defs to_decimal2_def round_half_away_def)
  from h1 h3 h5 h6 b w1 e f show ?thesis by simp
qed


section \<open>Which requests slide the expiry\<close>

text \<open>
  C6. \<^verbatim>\<open>GET /api/auth/me\<close> never writes to the store. A session that expires at
  1604800 is presented to it at 1086400, a day after it was issued: the request is
  answered with the user, and the expiry is still 1604800. The same token presented to
  a route of \<^verbatim>\<open>/api/user\<close> at the same time has its expiry moved to the time of use
  plus seven days, 1691200.
\<close>

theorem whoami_leaves_expiry:
  "fst (get_me d now req) = d
   \<and> expiry_of demo_db ''sess-alice'' = Some 1604800
   \<and> snd (get_me demo_db 1086400 (with_cookie ''sess-alice''))
       = Inr (user_of_row alice_row, Some ''482915'')
   \<and> expiry_of (fst (get_me demo_db 1086400 (with_cookie ''sess-alice''))) ''sess-alice''
       = Some 1604800
   \<and> expiry_of (fst (post_submit_click demo_db 1086400 (with_cookie ''sess-alice'') (click_on 3)))
        ''sess-alice'' = Some (1086400 + seven_days)
   \<and> 1086400 + seven_days = 1691200"
  by (simp add: get_me_reads_only) (simp add: auth_defs eval_defs demo_defs)

section \<open>Registration: batch labels\<close>

lemma letters_sorted: "sorted (map b_letter full_alphabet)"
proof -
  have single: "[x] \<le> [y]" if "x \<le> y" for x y :: nat
    using that by (simp add: le_less)
  have "sorted_wrt (\<lambda>x y. [x] \<le> [y]) [65..<91::nat]"
    by (rule sorted_wrt_mono_rel[OF _ sorted_upt]) (rule single)
  then show ?thesis
    by (simp add: full_alphabet_def o_def sorted_map)
qed

lemma sorted_alphabet: "sort_key b_letter full_alphabet = full_alphabet"
  by (rule sort_key_id_if_sorted[OF letters_sorted])

lemma alphabet_ends_with_Z:
  "full_alphabet = butlast full_alphabet @ [\<lparr>b_letter = [90], b_user_count = 1000, b_is_active = True\<rparr>]"
proof -
  have "[65..<91] = [65..<90] @ [90::nat]"
    using upt_Suc_append[of 65 90] by simp
  then show ?thesis by (simp add: full_alphabet_def)
qed

lemma getNextBatch_lowest_open_batch:
  assumes "filter (\<lambda>b. b_is_active b \<and> b_user_count b < 1000) (batches d) \<noteq> []"
  shows "\<exists>b. b \<in> set (batches d) \<and> b_is_active b \<and> b_user_count b < 1000
           \<and> getNextBatch d = (d, b_letter b)
           \<and> (\<forall>b'. b' \<in> set (batches d) \<and> b_is_active b' \<and> b_user_count b' < 1000
                  \<longrightarrow> b_letter b \<le> b_letter b')"
proof -
  let ?xs = "filter (\<lambda>b. b_is_active b \<and> b_user_count b < 1000) (batches d)"
  let ?ys = "sort_key b_letter ?xs"
  have "length ?ys = length ?xs" by simp
  with assms have "?ys \<noteq> []" by (metis length_0_conv)
  then obtain b rest where ys: "?ys = b # rest" by (cases ?ys) auto
  have mem: "set ?ys = set ?xs" by simp
  have srt: "sorted (map b_letter ?ys)" by (rule sorted_sort_key)
  have bin: "b \<in> set ?xs" using ys mem by (metis list.set_intros(1))
  have least: "b_letter b \<le> b_letter b'" if "b' \<in> set ?xs" for b'
  proof -
    from that mem have "b' \<in> set (b # rest)" using ys by simp
    then show ?thesis using srt ys by auto
  qed
  have "getNextBatch d = (d, b_letter b)" using ys by (simp add: getNextBatch_def)
  with bin least show ?thesis by auto
qed

text \<open>
  C9. With the batches \<^verbatim>\<open>A\<close> to \<^verbatim>\<open>Z\<close> all at capacity, the allocator that
  registration calls mints the label made of the character after \<^verbatim>\<open>Z\<close>, which is
  \<^verbatim>\<open>[\<close>, not \<^verbatim>\<open>AA\<close>. \<^verbatim>\<open>createNextBatch\<close> of the database module mints \<^verbatim>\<open>AA\<close>
  from the same table.
\<close>

theorem getNextBatch_after_Z:
  "snd (getNextBatch full_db) = code_units ''[''
   \<and> snd (getNextBatch full_db) \<noteq> code_units ''AA''
   \<and> snd (createNextBatch full_db) = code_units ''AA''"
proof -
  have none: "filter (\<lambda>b. b_is_active b \<and> b_user_count b < 1000) (batches full_db) = []"
    by (simp add: full_db_def full_alphabet_def filter_map o_def)
  have last: "rev (sort_key b_letter (batches full_db)) =
      \<lparr>b_letter = [90], b_user_count = 1000, b_is_active = True\<rparr> # rev (butlast full_alphabet)"
    unfolding full_db_def
    by (simp add: sorted_alphabet) (subst alphabet_ends_with_Z, simp)
  have fresh: "[65, 65] \<notin> set (map b_letter (batches full_db))"
    by (auto simp: full_db_def full_alphabet_def)
  show ?thesis
    using fresh
    by (simp add: getNextBatch_def createNextBatch_def none last Let_def
        code_units_def fromCharCode_def)
qed

section \<open>Registration: permanent codes\<close>








lemma users_getNextBatch [simp]: "users (fst (getNextBatch d)) = users d"
  by (simp add: getNextBatch_def insert_ignore_batch_def Let_def split: list.splits)














end
